theory Spec2Isabelle
  imports Complex_Main "HOL-Library.Monad_Syntax"
begin

section \<open>The falling-sand simulation of cmd/sandbox/sandbox.go\<close>

text \<open>
  The simulation core of \<^verbatim>\<open>cmd/sandbox/sandbox.go\<close>: the two boolean grids, the pointer
  driven source, \<^verbatim>\<open>SpawnSand\<close>, \<^verbatim>\<open>ApplyPhysics\<close> and one cycle of the \<^verbatim>\<open>Simulate\<close> loop.

  Conventions of the embedding.
  \<^item> A Go \<^verbatim>\<open>float32\<close> is a \<open>real\<close>: rounding, infinities and NaN are not modelled. The
    constants \<^verbatim>\<open>DELTA = 1/64\<close>, \<^verbatim>\<open>DELTA*GRAVITY = 7.65625\<close> and \<^verbatim>\<open>MAXVEL = 256\<close> are
    dyadic, so on the trajectories evaluated below every intermediate value is a
    multiple of \<open>1/2048\<close> below \<open>2\<^sup>1\<^sup>0\<close> and the \<^verbatim>\<open>float32\<close> arithmetic is exact there.
  \<^item> The conversion \<^verbatim>\<open>int(f)\<close> truncates toward zero (\<open>to_int\<close>).
  \<^item> A slice index out of range is a run-time panic of Go; every function that indexes a
    grid returns an \<open>option\<close>, and \<open>None\<close> is the panic.
  \<^item> \<^verbatim>\<open>rand.Float32()\<close> is an input: the four draws of one \<^verbatim>\<open>SpawnSand\<close> call are
    given with the tick.
  \<^item> The render bridge (mutex, tickers, \<^verbatim>\<open>paint.Event\<close>) does not touch the state modelled
    here and is left out.
\<close>

subsection \<open>Constants\<close>

definition WIDTH :: int where "WIDTH = 800"
definition HEIGHT :: int where "HEIGHT = 800"
definition SIMRATE :: int where "SIMRATE = 64"
definition DELTA :: real where "DELTA = 1 / of_int SIMRATE"
definition MAXVEL :: real where "MAXVEL = 4 * of_int SIMRATE"
definition MAXSAND :: int where "MAXSAND = WIDTH * HEIGHT div 2"
definition GRAVITY :: real where "GRAVITY = 490"

subsection \<open>Components, source, grids\<close>

record Position =
  pos_X :: real
  pos_Y :: real

record Velocity =
  vel_X :: real
  vel_Y :: real

text \<open>
  Modelled from the spec: the entity/component store is the package \<^verbatim>\<open>go-ecs\<close>, which is
  not part of this repository. Following section 2 of the specification (a container
  holding, per particle, a position, a velocity and an optional falling tag, with
  creation, tagged iteration, mutation and removal of the tag), a world is the list of
  its particles, an entity is an index into it, \<^verbatim>\<open>NewEntity\<close> appends, and
  \<^verbatim>\<open>QueryAll[Falling]\<close> returns, in creation order, the entities that carry the tag when
  it is called.
\<close>

record Particle =
  position :: Position
  velocity :: Velocity
  Falling :: bool

type_synonym World = "Particle list"

definition QueryAll_Falling :: "World \<Rightarrow> nat list" where
  "QueryAll_Falling world = filter (\<lambda>e. Falling (world ! e)) [0..<length world]"

record Source =
  src_prev :: Position
  src_p :: Position
  src_v :: Velocity
  isActive :: bool

type_synonym Grid = "bool list"

definition NewGrid :: Grid where
  "NewGrid = replicate (nat (WIDTH * HEIGHT)) False"

definition Grid_IsSet :: "Grid \<Rightarrow> int \<Rightarrow> int \<Rightarrow> bool option" where
  "Grid_IsSet g x y =
     (let i = x + WIDTH * y in
      if 0 \<le> i \<and> i < int (length g) then Some (g ! nat i) else None)"

definition Grid_Set :: "Grid \<Rightarrow> int \<Rightarrow> int \<Rightarrow> Grid option" where
  "Grid_Set g x y =
     (let i = x + WIDTH * y in
      if 0 \<le> i \<and> i < int (length g) then Some (g[nat i := True]) else None)"

definition Grid_Clear :: "Grid \<Rightarrow> int \<Rightarrow> int \<Rightarrow> Grid option" where
  "Grid_Clear g x y =
     (let i = x + WIDTH * y in
      if 0 \<le> i \<and> i < int (length g) then Some (g[nat i := False]) else None)"

definition to_int :: "real \<Rightarrow> int" where
  "to_int f = (if 0 \<le> f then \<lfloor>f\<rfloor> else \<lceil>f\<rceil>)"

subsection \<open>SpawnSand\<close>

definition SpawnSand :: "World \<Rightarrow> Source \<Rightarrow> real \<times> real \<times> real \<times> real \<Rightarrow> World \<times> Source" where
  "SpawnSand world source rnd =
     (case rnd of (r1, r2, r3, r4) \<Rightarrow>
        let vx = (pos_X (src_p source) - pos_X (src_prev source)) / DELTA / 2 + (r1 - r2) / DELTA / 2;
            vy = (pos_Y (src_p source) - pos_Y (src_prev source)) / DELTA / 2 + (r3 - r4) / DELTA / 2;
            source' = source\<lparr>src_v := \<lparr>vel_X = vx, vel_Y = vy\<rparr>\<rparr>
        in (world @ [\<lparr>position = \<lparr>pos_X = pos_X (src_p source'), pos_Y = pos_Y (src_p source')\<rparr>,
                      velocity = \<lparr>vel_X = vel_X (src_v source'), vel_Y = vel_Y (src_v source')\<rparr>,
                      Falling = True\<rparr>],
            source'))"

subsection \<open>ApplyPhysics\<close>

text \<open>
  The floor branch sets \<^verbatim>\<open>pNextY = HEIGHT - 1\<close> and subtracts \<open>1\<close> while the cell is
  settled: \<^verbatim>\<open>pNextY\<close> holds whole numbers there, so the walk runs over the row
  \<^verbatim>\<open>int(pNextY)\<close>. It ends at the first unsettled cell or with the panic of an index
  below zero.
\<close>

function floor_walk :: "Grid \<Rightarrow> int \<Rightarrow> int \<Rightarrow> int option" where
  "floor_walk col x y =
     (case Grid_IsSet col x y of
        None \<Rightarrow> None
      | Some b \<Rightarrow> if b then floor_walk col x (y - 1) else Some y)"
  by pat_completeness auto
termination
  by (relation "measure (\<lambda>(col, x, y). nat (x + WIDTH * y + 1))")
     (auto simp: Grid_IsSet_def Let_def WIDTH_def split: if_splits)

declare floor_walk.simps [simp del]

text \<open>The tie-break of the mid-air branch: the cell the particle is put to rest in.\<close>

definition settle_cell :: "Grid \<Rightarrow> real \<Rightarrow> real \<Rightarrow> (int \<times> int) option" where
  "settle_cell col pNextX pNextY =
     (let l = to_int (max (pNextX - 1) 0);
          r = to_int (min (pNextX + 1) (of_int WIDTH - 1));
          x = to_int pNextX;
          y = to_int pNextY
      in do {
        setL \<leftarrow> Grid_IsSet col l (to_int pNextY);
        setR \<leftarrow> Grid_IsSet col r (to_int pNextY);
        Some (if setL \<and> setR then (x, y - 1)
              else if \<not> (setL \<or> setR) then (if l mod 2 = 0 then (l, y) else (r, y))
              else if setL then (r, y)
              else (l, y))
      })"

text \<open>The body of the loop of \<^verbatim>\<open>ApplyPhysics\<close>, for one entity that carries the tag.\<close>

definition physics_entity :: "Particle \<Rightarrow> Grid \<Rightarrow> Grid \<Rightarrow> (Particle \<times> Grid \<times> Grid) option" where
  "physics_entity e grid col =
     (let p = position e;
          v = velocity e;
          vY = min (vel_Y v + DELTA * GRAVITY) MAXVEL;
          pNextX0 = pos_X p + DELTA * vel_X v;
          pNextY0 = pos_Y p + DELTA * vY;
          vX = (if pNextX0 < 0 then - vel_X v
                else if pNextX0 \<ge> of_int WIDTH then - vel_X v
                else vel_X v);
          pNextX = (if pNextX0 < 0 then 0
                    else if pNextX0 \<ge> of_int WIDTH then of_int WIDTH - 1
                    else pNextX0)
      in do {
        (v', pNext, col', falling) \<leftarrow>
          (if pNextY0 < 0 then
             Some (\<lparr>vel_X = vX, vel_Y = - vY\<rparr>, \<lparr>pos_X = pNextX, pos_Y = 0\<rparr>, col, True)
           else if pNextY0 \<ge> of_int HEIGHT then do {
             y \<leftarrow> floor_walk col (to_int pNextX) (HEIGHT - 1);
             col' \<leftarrow> Grid_Set col (to_int pNextX) y;
             Some (\<lparr>vel_X = 0, vel_Y = 0\<rparr>, \<lparr>pos_X = pNextX, pos_Y = of_int y\<rparr>, col', False)
           }
           else do {
             hit \<leftarrow> Grid_IsSet col (to_int pNextX) (to_int pNextY0);
             if hit then do {
               (x, y) \<leftarrow> settle_cell col pNextX pNextY0;
               col' \<leftarrow> Grid_Set col x y;
               Some (\<lparr>vel_X = vX, vel_Y = vY\<rparr>, \<lparr>pos_X = of_int x, pos_Y = of_int y\<rparr>, col', False)
             }
             else Some (\<lparr>vel_X = vX, vel_Y = vY\<rparr>, \<lparr>pos_X = pNextX, pos_Y = pNextY0\<rparr>, col, True)
           });
        grid1 \<leftarrow> Grid_Clear grid (to_int (pos_X p)) (to_int (pos_Y p));
        grid2 \<leftarrow> Grid_Set grid1 (to_int (pos_X pNext)) (to_int (pos_Y pNext));
        Some (\<lparr>position = pNext, velocity = v', Falling = falling\<rparr>, grid2, col')
      })"

fun physics_loop :: "nat list \<Rightarrow> World \<Rightarrow> Grid \<Rightarrow> Grid \<Rightarrow> (World \<times> Grid \<times> Grid) option" where
  "physics_loop [] world grid col = Some (world, grid, col)"
| "physics_loop (e # ents) world grid col =
     (case physics_entity (world ! e) grid col of
        None \<Rightarrow> None
      | Some (pt, grid', col') \<Rightarrow> physics_loop ents (world[e := pt]) grid' col')"

definition ApplyPhysics :: "World \<Rightarrow> Grid \<Rightarrow> Grid \<Rightarrow> (World \<times> Grid \<times> Grid) option" where
  "ApplyPhysics world grid col = physics_loop (QueryAll_Falling world) world grid col"

subsection \<open>One cycle of Simulate\<close>

datatype Direction = DirNone | DirPress | DirRelease | DirStep

record mouse_Event =
  ev_X :: real
  ev_Y :: real
  ev_Direction :: Direction

record SimState =
  world :: World
  sandCount :: int
  source :: Source
  gridLocal :: Grid
  collision :: Grid

record TickInput =
  event :: "mouse_Event option"
  rands :: "real \<times> real \<times> real \<times> real"

definition Simulate_init :: SimState where
  "Simulate_init =
     \<lparr>world = [], sandCount = 0,
      source = \<lparr>src_prev = \<lparr>pos_X = 0, pos_Y = 0\<rparr>, src_p = \<lparr>pos_X = 0, pos_Y = 0\<rparr>,
                src_v = \<lparr>vel_X = 0, vel_Y = 0\<rparr>, isActive = False\<rparr>,
      gridLocal = NewGrid, collision = NewGrid\<rparr>"

text \<open>\<^verbatim>\<open>// Handle Events\<close>: the assignment made for a \<^verbatim>\<open>mouse.Event\<close>.\<close>

definition handle_Event :: "mouse_Event \<Rightarrow> Source \<Rightarrow> Source" where
  "handle_Event e src =
     src\<lparr>src_prev := \<lparr>pos_X = pos_X (src_p src), pos_Y = pos_Y (src_p src)\<rparr>,
         src_p := \<lparr>pos_X = max (min (ev_X e) (of_int WIDTH)) 0,
                   pos_Y = max (min (ev_Y e) (of_int HEIGHT)) 0\<rparr>,
         isActive := (isActive src \<or> ev_Direction e = DirPress) \<and> ev_Direction e \<noteq> DirRelease\<rparr>"

definition Simulate_events :: "mouse_Event option \<Rightarrow> SimState \<Rightarrow> SimState" where
  "Simulate_events ev s =
     (case ev of None \<Rightarrow> s | Some e \<Rightarrow> s\<lparr>source := handle_Event e (source s)\<rparr>)"

text \<open>
  \<^verbatim>\<open>// Spawn Sand\<close>. The condition is evaluated left to right and stops at the first false
  conjunct, so the grid is read only when the source is active. The cell read is
  \<^verbatim>\<open>(int(source.p.X), int(source.p.X))\<close>, as the source has it.
\<close>

definition Simulate_spawn :: "real \<times> real \<times> real \<times> real \<Rightarrow> SimState \<Rightarrow> SimState option" where
  "Simulate_spawn rnd s =
     (if isActive (source s) then do {
        occupied \<leftarrow> Grid_IsSet (gridLocal s) (to_int (pos_X (src_p (source s))))
                                              (to_int (pos_X (src_p (source s))));
        if \<not> occupied \<and> sandCount s < MAXSAND then do {
          let (world', source') = SpawnSand (world s) (source s) rnd;
          grid' \<leftarrow> Grid_Set (gridLocal s) (to_int (pos_X (src_p source')))
                                            (to_int (pos_Y (src_p source')));
          Some (s\<lparr>world := world', sandCount := sandCount s + 1, source := source',
                  gridLocal := grid'\<rparr>)
        }
        else Some s
      }
      else Some s)"

definition Simulate_physics :: "SimState \<Rightarrow> SimState option" where
  "Simulate_physics s =
     (case ApplyPhysics (world s) (gridLocal s) (collision s) of
        None \<Rightarrow> None
      | Some (world', grid', col') \<Rightarrow>
          Some (s\<lparr>world := world', gridLocal := grid', collision := col'\<rparr>))"

definition Simulate_tick :: "TickInput \<Rightarrow> SimState \<Rightarrow> SimState option" where
  "Simulate_tick inp s =
     (case Simulate_spawn (rands inp) (Simulate_events (event inp) s) of
        None \<Rightarrow> None
      | Some s1 \<Rightarrow> Simulate_physics s1)"

text \<open>The loop, run for the inputs of finitely many cycles; a panic ends it.\<close>

fun Simulate_run :: "TickInput list \<Rightarrow> SimState \<Rightarrow> SimState option" where
  "Simulate_run [] s = Some s"
| "Simulate_run (inp # inps) s =
     (case Simulate_tick inp s of None \<Rightarrow> None | Some s' \<Rightarrow> Simulate_run inps s')"

subsection \<open>Names for the local variables of the loop body\<close>

text \<open>
  The values \<^verbatim>\<open>ApplyPhysics\<close> computes for an entity before it branches: the velocity
  after \<^verbatim>\<open>// GRAVITY\<close>, the tentative position of \<^verbatim>\<open>// MOTION\<close>, and the horizontal
  velocity and position after the first \<^verbatim>\<open>if\<close> of \<^verbatim>\<open>// COLLISION\<close>. The theorems are
  stated with them; \<open>physics_entity_vars\<close> shows that they are the ones of
  \<open>physics_entity\<close>.
\<close>

definition gravity_Y :: "Particle \<Rightarrow> real" where
  "gravity_Y e = min (vel_Y (velocity e) + DELTA * GRAVITY) MAXVEL"

definition tentative_X :: "Particle \<Rightarrow> real" where
  "tentative_X e = pos_X (position e) + DELTA * vel_X (velocity e)"

definition tentative_Y :: "Particle \<Rightarrow> real" where
  "tentative_Y e = pos_Y (position e) + DELTA * gravity_Y e"

definition reflect_X :: "Particle \<Rightarrow> real" where
  "reflect_X e =
     (if tentative_X e < 0 then - vel_X (velocity e)
      else if tentative_X e \<ge> of_int WIDTH then - vel_X (velocity e)
      else vel_X (velocity e))"

definition clamped_X :: "Particle \<Rightarrow> real" where
  "clamped_X e =
     (if tentative_X e < 0 then 0
      else if tentative_X e \<ge> of_int WIDTH then of_int WIDTH - 1
      else tentative_X e)"

text \<open>
  A tick of free fall for an entity: its tentative position is inside the domain and
  the Settlement Grid is not set there, so none of the branches of \<^verbatim>\<open>// COLLISION\<close> is
  taken.
\<close>

definition free_fall :: "Particle \<Rightarrow> Grid \<Rightarrow> bool" where
  "free_fall e col \<longleftrightarrow>
     0 \<le> tentative_X e \<and> tentative_X e < of_int WIDTH \<and>
     0 \<le> tentative_Y e \<and> tentative_Y e < of_int HEIGHT \<and>
     Grid_IsSet col (to_int (tentative_X e)) (to_int (tentative_Y e)) = Some False"

subsection \<open>The mid-air branch of the revision with the re-scan\<close>

text \<open>
  A second revision of the same file in the repository replaces the tie-break of the
  mid-air branch by a loop that re-scans after each choice and slides the particle down
  the chosen column:
  \<^verbatim>\<open>for (y+1) < HEIGHT && !col.IsSet(x, y+1) { y++ }\<close> is \<open>slide_down\<close>, the
  \<^verbatim>\<open>for { ... }\<close> around the tie-break is \<open>rescan\<close> (its result is the cell at the
  \<^verbatim>\<open>break\<close>), and \<open>rescan_settle\<close> adds the slide that follows the loop.
\<close>

function slide_down :: "Grid \<Rightarrow> int \<Rightarrow> int \<Rightarrow> int option" where
  "slide_down col x y =
     (if y + 1 < HEIGHT then
        (case Grid_IsSet col x (y + 1) of
           None \<Rightarrow> None
         | Some b \<Rightarrow> if \<not> b then slide_down col x (y + 1) else Some y)
      else Some y)"
  by pat_completeness auto
termination
  by (relation "measure (\<lambda>(col, x, y). nat (HEIGHT - y))") auto

declare slide_down.simps [simp del]

function rescan :: "Grid \<Rightarrow> int \<Rightarrow> int \<Rightarrow> (int \<times> int) option" where
  "rescan col x y =
     (let l = max (x - 1) 0; r = min (x + 1) (WIDTH - 1) in
      case Grid_IsSet col l y of
        None \<Rightarrow> None
      | Some setL \<Rightarrow>
         (case Grid_IsSet col r y of
            None \<Rightarrow> None
          | Some setR \<Rightarrow>
             if setL \<and> setR then
               (if max (y - 1) 0 = 0 then Some (x, max (y - 1) 0)
                else (case Grid_IsSet col x (max (y - 1) 0) of
                        None \<Rightarrow> None
                      | Some b \<Rightarrow>
                          if \<not> b then map_option (Pair x) (slide_down col x (max (y - 1) 0))
                          else rescan col x (max (y - 1) 0)))
             else
               (let x' = (if \<not> (setL \<or> setR) then (if l mod 2 = 0 then l else r)
                          else if setL then r else l) in
                case Grid_IsSet col x' y of
                  None \<Rightarrow> None
                | Some b \<Rightarrow>
                    if \<not> b then map_option (Pair x') (slide_down col x' y)
                    else rescan col x' y)))"
  by pat_completeness auto
termination
  apply (relation "measure (\<lambda>(col, x, y). nat y)")
    apply simp
   apply (auto simp: Let_def split: if_splits)
  done

declare rescan.simps [simp del]

definition rescan_settle :: "Grid \<Rightarrow> int \<Rightarrow> int \<Rightarrow> (int \<times> int) option" where
  "rescan_settle col x y =
     (case rescan col x y of
        None \<Rightarrow> None
      | Some (x', y') \<Rightarrow> map_option (Pair x') (slide_down col x' y'))"

text \<open>
  A tick is a press tick when the event it delivers is a press; the statement about
  the time after a release speaks of cycles that are not.
\<close>

definition is_press :: "TickInput \<Rightarrow> bool" where
  "is_press inp = (case event inp of None \<Rightarrow> False | Some e \<Rightarrow> ev_Direction e = DirPress)"

subsection \<open>Concrete inputs used below\<close>

definition press_ev :: mouse_Event where
  "press_ev = \<lparr>ev_X = 11 / 2, ev_Y = 21 / 2, ev_Direction = DirPress\<rparr>"

definition release_ev :: mouse_Event where
  "release_ev = \<lparr>ev_X = 11 / 2, ev_Y = 21 / 2, ev_Direction = DirRelease\<rparr>"

definition idle :: TickInput where
  "idle = \<lparr>event = None, rands = (0, 0, 0, 0)\<rparr>"

definition ev_at :: "real \<Rightarrow> real \<Rightarrow> Direction \<Rightarrow> TickInput" where
  "ev_at x y d = \<lparr>event = Some \<lparr>ev_X = x, ev_Y = y, ev_Direction = d\<rparr>, rands = (0, 0, 0, 0)\<rparr>"

text \<open>The states after a press at \<open>(5.5, 10.5)\<close>, the release that follows, and an idle cycle.\<close>

definition latch_s1 :: SimState where
  "latch_s1 =
     \<lparr>world = [\<lparr>position = \<lparr>pos_X = 33 / 4, pos_Y = 29 / 2\<rparr>,
                velocity = \<lparr>vel_X = 176, vel_Y = 256\<rparr>, Falling = True\<rparr>],
      sandCount = 1,
      source = \<lparr>src_prev = \<lparr>pos_X = 0, pos_Y = 0\<rparr>, src_p = \<lparr>pos_X = 11 / 2, pos_Y = 21 / 2\<rparr>,
                src_v = \<lparr>vel_X = 176, vel_Y = 336\<rparr>, isActive = True\<rparr>,
      gridLocal = (replicate 640000 False)[8005 := False, 11208 := True],
      collision = replicate 640000 False\<rparr>"

definition latch_s2 :: SimState where
  "latch_s2 =
     \<lparr>world = [\<lparr>position = \<lparr>pos_X = 11, pos_Y = 37 / 2\<rparr>,
                velocity = \<lparr>vel_X = 176, vel_Y = 256\<rparr>, Falling = True\<rparr>],
      sandCount = 1,
      source = \<lparr>src_prev = \<lparr>pos_X = 11 / 2, pos_Y = 21 / 2\<rparr>,
                src_p = \<lparr>pos_X = 11 / 2, pos_Y = 21 / 2\<rparr>,
                src_v = \<lparr>vel_X = 176, vel_Y = 336\<rparr>, isActive = False\<rparr>,
      gridLocal = (replicate 640000 False)[8005 := False, 11208 := False, 14411 := True],
      collision = replicate 640000 False\<rparr>"

definition latch_s3 :: SimState where
  "latch_s3 =
     \<lparr>world = [\<lparr>position = \<lparr>pos_X = 55 / 4, pos_Y = 45 / 2\<rparr>,
                velocity = \<lparr>vel_X = 176, vel_Y = 256\<rparr>, Falling = True\<rparr>],
      sandCount = 1,
      source = \<lparr>src_prev = \<lparr>pos_X = 11 / 2, pos_Y = 21 / 2\<rparr>,
                src_p = \<lparr>pos_X = 11 / 2, pos_Y = 21 / 2\<rparr>,
                src_v = \<lparr>vel_X = 176, vel_Y = 336\<rparr>, isActive = False\<rparr>,
      gridLocal = (replicate 640000 False)
                    [8005 := False, 11208 := False, 14411 := False, 17613 := True],
      collision = replicate 640000 False\<rparr>"

text \<open>Particles and grids of the examples.\<close>

definition grain_at_rest :: Particle where
  "grain_at_rest = \<lparr>position = \<lparr>pos_X = 400, pos_Y = 0\<rparr>,
                     velocity = \<lparr>vel_X = 0, vel_Y = 0\<rparr>, Falling = True\<rparr>"

definition grain_tick1 :: Particle where
  "grain_tick1 = \<lparr>position = \<lparr>pos_X = 400, pos_Y = 245 / 2048\<rparr>,
                   velocity = \<lparr>vel_X = 0, vel_Y = 245 / 32\<rparr>, Falling = True\<rparr>"

definition grain_tick2 :: Particle where
  "grain_tick2 = \<lparr>position = \<lparr>pos_X = 400, pos_Y = 735 / 2048\<rparr>,
                   velocity = \<lparr>vel_X = 0, vel_Y = 245 / 16\<rparr>, Falling = True\<rparr>"

text \<open>
  What \<^verbatim>\<open>SpawnSand\<close> creates when the pointer has moved ten pixels down since the last
  event: the velocity is \<open>10 / DELTA / 2 = 320\<close>, above \<^verbatim>\<open>MAXVEL\<close>.
\<close>

definition fast_grain :: Particle where
  "fast_grain = \<lparr>position = \<lparr>pos_X = 400, pos_Y = 10\<rparr>,
                  velocity = \<lparr>vel_X = 0, vel_Y = 320\<rparr>, Falling = True\<rparr>"

text \<open>A particle created in the lower left corner while the pointer moves left and down.\<close>

definition corner_grain :: Particle where
  "corner_grain = \<lparr>position = \<lparr>pos_X = 1 / 2, pos_Y = 799 + 1 / 2\<rparr>,
                    velocity = \<lparr>vel_X = - 64, vel_Y = 256\<rparr>, Falling = True\<rparr>"


text \<open>
  Two particles land on the floor in column 5: the pointer moves to \<open>(5.5, 791.5)\<close>,
  is pressed at \<open>(5.5, 799.5)\<close> and held for one more cycle, and is released at
  \<open>(5.5, 797.9375)\<close>. In \<open>stack_state\<close>, the state after these four cycles, the
  cells \<open>(5, 799)\<close> and \<open>(5, 798)\<close> are settled (\<open>stack_col\<close>). A press at the
  same place then creates \<open>above_stack\<close>, with velocity zero, in the cell \<open>(5, 797)\<close>
  (\<open>stack_grid\<close> is the Occupancy Grid after the spawn); its first tick takes it into the
  settled cell \<open>(5, 798)\<close>.
\<close>

definition stack_inputs :: "TickInput list" where
  "stack_inputs = [ev_at (11 / 2) (1583 / 2) DirNone, ev_at (11 / 2) (1599 / 2) DirPress, idle,
                   ev_at (11 / 2) (12767 / 16) DirRelease]"

definition stack_col :: Grid where
  "stack_col = NewGrid[639205 := True, 638405 := True]"

definition stack_grid :: Grid where
  "stack_grid = NewGrid[639205 := False, 638405 := True, 637605 := True]"

definition stack_state :: SimState where
  "stack_state =
     \<lparr>world = [\<lparr>position = \<lparr>pos_X = 11 / 2, pos_Y = 799\<rparr>,
                velocity = \<lparr>vel_X = 0, vel_Y = 0\<rparr>, Falling = False\<rparr>,
               \<lparr>position = \<lparr>pos_X = 11 / 2, pos_Y = 798\<rparr>,
                velocity = \<lparr>vel_X = 0, vel_Y = 0\<rparr>, Falling = False\<rparr>],
      sandCount = 2,
      source = \<lparr>src_prev = \<lparr>pos_X = 11 / 2, pos_Y = 1599 / 2\<rparr>,
                src_p = \<lparr>pos_X = 11 / 2, pos_Y = 12767 / 16\<rparr>,
                src_v = \<lparr>vel_X = 0, vel_Y = 256\<rparr>, isActive = False\<rparr>,
      gridLocal = NewGrid[639205 := False, 638405 := True],
      collision = stack_col\<rparr>"

definition above_stack :: Particle where
  "above_stack = \<lparr>position = \<lparr>pos_X = 11 / 2, pos_Y = 797 + 15 / 16\<rparr>,
                   velocity = \<lparr>vel_X = 0, vel_Y = 0\<rparr>, Falling = True\<rparr>"

text \<open>
  The state after the pointer has moved to \<open>(5.5, 10.5)\<close> and has been pressed there:
  one particle, in the cell \<open>(5, 10)\<close> of the source.
\<close>

definition pressed_state :: SimState where
  "pressed_state =
     \<lparr>world = [\<lparr>position = \<lparr>pos_X = 11 / 2, pos_Y = 21749 / 2048\<rparr>,
                velocity = \<lparr>vel_X = 0, vel_Y = 245 / 32\<rparr>, Falling = True\<rparr>],
      sandCount = 1,
      source = \<lparr>src_prev = \<lparr>pos_X = 11 / 2, pos_Y = 21 / 2\<rparr>,
                src_p = \<lparr>pos_X = 11 / 2, pos_Y = 21 / 2\<rparr>,
                src_v = \<lparr>vel_X = 0, vel_Y = 0\<rparr>, isActive = True\<rparr>,
      gridLocal = (replicate 640000 False)[8005 := True],
      collision = replicate 640000 False\<rparr>"

definition cell_of :: "Particle \<Rightarrow> int \<times> int" where
  "cell_of e = (to_int (pos_X (position e)), to_int (pos_Y (position e)))"

text \<open>
  Both horizontal neighbours of the tentative cell are settled: the first case of the
  tie-break (\<^verbatim>\<open>setL && setR\<close>).
\<close>

definition both_neighbours_settled :: "Grid \<Rightarrow> real \<Rightarrow> real \<Rightarrow> bool" where
  "both_neighbours_settled col pNextX pNextY \<longleftrightarrow>
     Grid_IsSet col (to_int (max (pNextX - 1) 0)) (to_int pNextY) = Some True \<and>
     Grid_IsSet col (to_int (min (pNextX + 1) (of_int WIDTH - 1))) (to_int pNextY) = Some True"

subsection \<open>The scenario of a single falling particle\<close>

text \<open>
  A position inside the domain; the vertical motion of one tick of free fall, on the pair
  of \<^verbatim>\<open>p.Y\<close> and \<^verbatim>\<open>v.Y\<close>; a state whose only particle falls in column 400 over an
  empty Settlement Grid while the source is inactive; and the inputs of the scenario: the
  pointer moves to \<open>(400, 0)\<close>, is pressed and released there (which creates one
  particle with velocity zero), and 215 cycles without an event follow.
\<close>

definition in_domain :: "Position \<Rightarrow> bool" where
  "in_domain p \<longleftrightarrow> 0 \<le> pos_X p \<and> pos_X p < of_int WIDTH \<and> 0 \<le> pos_Y p \<and> pos_Y p < of_int HEIGHT"

definition fall :: "real \<times> real \<Rightarrow> real \<times> real" where
  "fall yv = (let v' = min (snd yv + DELTA * GRAVITY) MAXVEL in (fst yv + DELTA * v', v'))"

definition lone_falling :: "SimState \<Rightarrow> real \<Rightarrow> real \<Rightarrow> bool" where
  "lone_falling s y v \<longleftrightarrow>
     world s = [\<lparr>position = \<lparr>pos_X = 400, pos_Y = y\<rparr>,
                 velocity = \<lparr>vel_X = 0, vel_Y = v\<rparr>, Falling = True\<rparr>] \<and>
     collision s = NewGrid \<and> length (gridLocal s) = nat (WIDTH * HEIGHT) \<and>
     \<not> isActive (source s)"

definition drop_inputs :: "TickInput list" where
  "drop_inputs = [ev_at 400 0 DirNone, ev_at 400 0 DirPress, ev_at 400 0 DirRelease] @
                 replicate 215 idle"

text \<open>
  Every particle without the Falling tag has its cell set in the Settlement Grid: the
  invariant behind the statement that a settled particle stays on a settled cell.
\<close>

definition settled_marked :: "World \<Rightarrow> Grid \<Rightarrow> bool" where
  "settled_marked w c \<longleftrightarrow>
     (\<forall>e < length w. \<not> Falling (w ! e) \<longrightarrow>
        Grid_IsSet c (fst (cell_of (w ! e))) (snd (cell_of (w ! e))) = Some True)"

text \<open>
  The state after the pointer has moved to \<open>(2.5, 791.5)\<close> and has been pressed at
  \<open>(0.5, 799.5)\<close>: the particle created by the press has landed in \<open>(0, 799)\<close>. The
  source stays active, and the next cycle lands a second particle on top of it.
\<close>

definition corner_state :: SimState where
  "corner_state =
     \<lparr>world = [\<lparr>position = \<lparr>pos_X = 0, pos_Y = 799\<rparr>,
                velocity = \<lparr>vel_X = 0, vel_Y = 0\<rparr>, Falling = False\<rparr>],
      sandCount = 1,
      source = \<lparr>src_prev = \<lparr>pos_X = 5 / 2, pos_Y = 1583 / 2\<rparr>,
                src_p = \<lparr>pos_X = 1 / 2, pos_Y = 1599 / 2\<rparr>,
                src_v = \<lparr>vel_X = - 64, vel_Y = 256\<rparr>, isActive = True\<rparr>,
      gridLocal = (replicate 640000 False)[639200 := True],
      collision = (replicate 640000 False)[639200 := True]\<rparr>"

definition corner_state2 :: SimState where
  "corner_state2 =
     \<lparr>world = [\<lparr>position = \<lparr>pos_X = 0, pos_Y = 799\<rparr>,
                velocity = \<lparr>vel_X = 0, vel_Y = 0\<rparr>, Falling = False\<rparr>,
               \<lparr>position = \<lparr>pos_X = 0, pos_Y = 798\<rparr>,
                velocity = \<lparr>vel_X = 0, vel_Y = 0\<rparr>, Falling = False\<rparr>],
      sandCount = 2,
      source = \<lparr>src_prev = \<lparr>pos_X = 5 / 2, pos_Y = 1583 / 2\<rparr>,
                src_p = \<lparr>pos_X = 1 / 2, pos_Y = 1599 / 2\<rparr>,
                src_v = \<lparr>vel_X = - 64, vel_Y = 256\<rparr>, isActive = True\<rparr>,
      gridLocal = (replicate 640000 False)[639200 := False, 638400 := True],
      collision = (replicate 640000 False)[639200 := True, 638400 := True]\<rparr>"

subsection \<open>The scenario of a pile in one column\<close>

text \<open>
  The pointer moves to \<open>(0.5, 791.5)\<close> and is pressed at \<open>(2.5, 799.5)\<close>; it is then
  held there, so that the following cycles receive no event (\<open>held\<close>). The draws of
  \<^verbatim>\<open>rand.Float32()\<close> are arbitrary values of \<open>[0, 1)\<close> (\<open>rands_ok\<close>).
  \<open>pile_grain rnd\<close> is the particle a cycle creates from the draws \<open>rnd\<close>: whatever
  they are, its first tick takes it beyond the floor in column 3. \<open>column_pile k\<close>
  describes the state after \<open>k\<close> such cycles: the pointer is where it was pressed, all
  particles are at rest, the rows \<open>HEIGHT - k\<close> to \<open>HEIGHT - 1\<close> of column 3 are
  settled, and the cell \<open>(2, 2)\<close> that the spawn decision reads is free.
\<close>

definition rands_ok :: "real \<times> real \<times> real \<times> real \<Rightarrow> bool" where
  "rands_ok rnd \<longleftrightarrow>
     (case rnd of (r1, r2, r3, r4) \<Rightarrow>
        0 \<le> r1 \<and> r1 < 1 \<and> 0 \<le> r2 \<and> r2 < 1 \<and> 0 \<le> r3 \<and> r3 < 1 \<and> 0 \<le> r4 \<and> r4 < 1)"

definition pile_grain :: "real \<times> real \<times> real \<times> real \<Rightarrow> Particle" where
  "pile_grain rnd =
     (case rnd of (r1, r2, r3, r4) \<Rightarrow>
        \<lparr>position = \<lparr>pos_X = 5 / 2, pos_Y = 1599 / 2\<rparr>,
         velocity = \<lparr>vel_X = 64 + 32 * (r1 - r2), vel_Y = 256 + 32 * (r3 - r4)\<rparr>,
         Falling = True\<rparr>)"

definition column_pile :: "nat \<Rightarrow> SimState \<Rightarrow> bool" where
  "column_pile k s \<longleftrightarrow>
     src_prev (source s) = \<lparr>pos_X = 1 / 2, pos_Y = 1583 / 2\<rparr> \<and>
     src_p (source s) = \<lparr>pos_X = 5 / 2, pos_Y = 1599 / 2\<rparr> \<and> isActive (source s) \<and>
     list_all (\<lambda>e. \<not> Falling e) (world s) \<and> sandCount s = int k \<and>
     length (gridLocal s) = nat (WIDTH * HEIGHT) \<and> length (collision s) = nat (WIDTH * HEIGHT) \<and>
     \<not> gridLocal s ! 1602 \<and>
     (\<forall>r. 0 \<le> r \<and> r < HEIGHT \<longrightarrow> (collision s ! nat (3 + WIDTH * r) \<longleftrightarrow> HEIGHT - int k \<le> r))"

definition held :: "real \<times> real \<times> real \<times> real \<Rightarrow> TickInput" where
  "held rnd = \<lparr>event = None, rands = rnd\<rparr>"

definition pile_inputs ::
  "real \<times> real \<times> real \<times> real \<Rightarrow> (real \<times> real \<times> real \<times> real) list \<Rightarrow> TickInput list" where
  "pile_inputs rnd rnds =
     [ev_at (1 / 2) (1583 / 2) DirNone,
      \<lparr>event = Some \<lparr>ev_X = 5 / 2, ev_Y = 1599 / 2, ev_Direction = DirPress\<rparr>, rands = rnd\<rparr>] @
     map held rnds"

section \<open>Evaluation\<close>

lemmas consts_defs = WIDTH_def HEIGHT_def SIMRATE_def DELTA_def MAXVEL_def MAXSAND_def GRAVITY_def

lemmas eval_defs = physics_entity_def consts_defs NewGrid_def Grid_IsSet_def Grid_Set_def
  Grid_Clear_def to_int_def Let_def SpawnSand_def Simulate_spawn_def Simulate_events_def
  Simulate_physics_def Simulate_tick_def Simulate_init_def handle_Event_def
  QueryAll_Falling_def ApplyPhysics_def settle_cell_def idle_def ev_at_def

lemmas var_defs = gravity_Y_def tentative_X_def tentative_Y_def reflect_X_def clamped_X_def

section \<open>The pointer latch\<close>

lemma Simulate_spawn_isActive:
  "Simulate_spawn rnd s = Some s' \<Longrightarrow> isActive (source s') = isActive (source s)"
  by (auto simp: Simulate_spawn_def SpawnSand_def Let_def
           split: if_splits prod.splits Option.bind_splits)

lemma Simulate_physics_source:
  "Simulate_physics s = Some s' \<Longrightarrow> source s' = source s"
  by (auto simp: Simulate_physics_def split: option.splits)

lemma Simulate_tick_isActive:
  "Simulate_tick inp s = Some s' \<Longrightarrow>
   isActive (source s') = isActive (source (Simulate_events (event inp) s))"
  by (auto simp: Simulate_tick_def split: option.splits
           dest!: Simulate_spawn_isActive Simulate_physics_source)

lemma Simulate_tick_stays_inactive:
  assumes "Simulate_tick inp s = Some s'" "\<not> is_press inp" "\<not> isActive (source s)"
  shows "\<not> isActive (source s')"
  using assms Simulate_tick_isActive[OF assms(1)]
  by (auto simp: Simulate_events_def is_press_def handle_Event_def split: option.splits)

lemma Simulate_run_stays_inactive:
  "Simulate_run inps s = Some s' \<Longrightarrow> list_all (\<lambda>i. \<not> is_press i) inps \<Longrightarrow>
   \<not> isActive (source s) \<Longrightarrow> \<not> isActive (source s')"
proof (induction inps arbitrary: s)
  case Nil
  then show ?case by simp
next
  case (Cons i inps)
  from Cons.prems(1) obtain s1 where t: "Simulate_tick i s = Some s1"
    and r: "Simulate_run inps s1 = Some s'"
    by (auto split: option.splits)
  from Cons.prems(2) have np: "\<not> is_press i" and rest: "list_all (\<lambda>i. \<not> is_press i) inps"
    by simp_all
  have "\<not> isActive (source s1)"
    using Simulate_tick_stays_inactive[OF t np Cons.prems(3)] .
  then show ?case using Cons.IH[OF r rest] by simp
qed

text \<open>
  Claim C9. Handling one pointer event sets the activity flag to
  (old flag or press) and not release: a press makes it true, a release makes it false
  whatever was latched, a move leaves it as it was. Spawning and physics never touch the
  flag, so it stays latched between events. A press and a release delivered to two
  successive cycles give a spawn decision that sees the flag true (the one of the press
  cycle), and the flag is false after the release cycle and after every later cycle
  that delivers no press.
\<close>

theorem pointer_activity_latch:
  "(isActive (handle_Event e src) \<longleftrightarrow>
      (isActive src \<or> ev_Direction e = DirPress) \<and> ev_Direction e \<noteq> DirRelease)
   \<and> (ev_Direction e = DirPress \<longrightarrow> isActive (handle_Event e src))
   \<and> (ev_Direction e = DirRelease \<longrightarrow> \<not> isActive (handle_Event e src))
   \<and> (ev_Direction e = DirNone \<longrightarrow> isActive (handle_Event e src) = isActive src)
   \<and> (Simulate_tick inp s = Some s' \<longrightarrow>
        isActive (source s') = isActive (source (Simulate_events (event inp) s)))
   \<and> Simulate_events None s = s
   \<and> (ev_Direction press = DirPress \<and> ev_Direction release = DirRelease \<and>
       Simulate_tick \<lparr>event = Some press, rands = r1\<rparr> s0 = Some s1 \<and>
       Simulate_tick \<lparr>event = Some release, rands = r2\<rparr> s1 = Some s2 \<and>
       Simulate_run inps s2 = Some s3 \<and> list_all (\<lambda>i. \<not> is_press i) inps \<longrightarrow>
       isActive (source (Simulate_events (Some press) s0)) \<and> isActive (source s1) \<and>
       \<not> isActive (source s2) \<and> \<not> isActive (source s3))"
proof -
  have a: "ev_Direction press = DirPress \<Longrightarrow> isActive (source (Simulate_events (Some press) s0))"
    by (simp add: Simulate_events_def handle_Event_def)
  have b: "ev_Direction release = DirRelease \<Longrightarrow>
      \<not> isActive (source (Simulate_events (Some release) s1))"
    by (simp add: Simulate_events_def handle_Event_def)
  have c: "Simulate_tick \<lparr>event = Some press, rands = r1\<rparr> s0 = Some s1 \<Longrightarrow>
      isActive (source s1) = isActive (source (Simulate_events (Some press) s0))"
    using Simulate_tick_isActive[of "\<lparr>event = Some press, rands = r1\<rparr>" s0 s1] by simp
  have d: "Simulate_tick \<lparr>event = Some release, rands = r2\<rparr> s1 = Some s2 \<Longrightarrow>
      isActive (source s2) = isActive (source (Simulate_events (Some release) s1))"
    using Simulate_tick_isActive[of "\<lparr>event = Some release, rands = r2\<rparr>" s1 s2] by simp
  show ?thesis
    using a b c d Simulate_tick_isActive[of inp s s'] Simulate_run_stays_inactive[of inps s2 s3]
    by (auto simp: handle_Event_def Simulate_events_def)
qed

theorem pointer_activity_latch_witness:
  "ev_Direction press_ev = DirPress \<and> ev_Direction release_ev = DirRelease \<and>
   Simulate_tick \<lparr>event = Some press_ev, rands = (0, 0, 0, 0)\<rparr> Simulate_init = Some latch_s1 \<and>
   Simulate_tick \<lparr>event = Some release_ev, rands = (0, 0, 0, 0)\<rparr> latch_s1 = Some latch_s2 \<and>
   Simulate_run [idle] latch_s2 = Some latch_s3 \<and> list_all (\<lambda>i. \<not> is_press i) [idle] \<and>
   isActive (handle_Event press_ev (source Simulate_init)) \<and>
   \<not> isActive (handle_Event release_ev (source latch_s1)) \<and>
   isActive (source latch_s1) \<and> \<not> isActive (source latch_s2) \<and> \<not> isActive (source latch_s3)"
proof -
  have h1: "ev_Direction press_ev = DirPress" "ev_Direction release_ev = DirRelease"
    by (simp_all add: press_ev_def release_ev_def)
  have h2: "Simulate_tick \<lparr>event = Some press_ev, rands = (0, 0, 0, 0)\<rparr> Simulate_init = Some latch_s1"
    by (simp add: eval_defs press_ev_def latch_s1_def)
  have h3: "Simulate_tick \<lparr>event = Some release_ev, rands = (0, 0, 0, 0)\<rparr> latch_s1 = Some latch_s2"
    by (simp add: eval_defs release_ev_def latch_s1_def latch_s2_def)
  have h4: "Simulate_run [idle] latch_s2 = Some latch_s3"
    by (simp add: eval_defs latch_s2_def latch_s3_def)
  have h5: "list_all (\<lambda>i. \<not> is_press i) [idle]"
    by (simp add: is_press_def idle_def)
  have c1: "isActive (source latch_s1) \<and> \<not> isActive (source latch_s2) \<and> \<not> isActive (source latch_s3)"
    using pointer_activity_latch[where press = press_ev and release = release_ev
        and ?r1.0 = "(0, 0, 0, 0)" and ?r2.0 = "(0, 0, 0, 0)" and ?s0.0 = Simulate_init
        and ?s1.0 = latch_s1 and ?s2.0 = latch_s2 and inps = "[idle]" and ?s3.0 = latch_s3]
      h1 h2 h3 h4 h5 by blast
  have c2: "isActive (handle_Event press_ev (source Simulate_init))"
    using pointer_activity_latch[where e = press_ev and src = "source Simulate_init"] h1 by blast
  have c3: "\<not> isActive (handle_Event release_ev (source latch_s1))"
    using pointer_activity_latch[where e = release_ev and src = "source latch_s1"] h1 by blast
  show ?thesis using h1 h2 h3 h4 h5 c1 c2 c3 by blast
qed

section \<open>The loop body, case by case\<close>

lemma physics_entity_vars:
  "physics_entity e grid col =
     do {
        (v', pNext, col', falling) \<leftarrow>
          (if tentative_Y e < 0 then
             Some (\<lparr>vel_X = reflect_X e, vel_Y = - gravity_Y e\<rparr>,
                   \<lparr>pos_X = clamped_X e, pos_Y = 0\<rparr>, col, True)
           else if tentative_Y e \<ge> of_int HEIGHT then do {
             y \<leftarrow> floor_walk col (to_int (clamped_X e)) (HEIGHT - 1);
             col' \<leftarrow> Grid_Set col (to_int (clamped_X e)) y;
             Some (\<lparr>vel_X = 0, vel_Y = 0\<rparr>, \<lparr>pos_X = clamped_X e, pos_Y = of_int y\<rparr>, col', False)
           }
           else do {
             hit \<leftarrow> Grid_IsSet col (to_int (clamped_X e)) (to_int (tentative_Y e));
             if hit then do {
               (x, y) \<leftarrow> settle_cell col (clamped_X e) (tentative_Y e);
               col' \<leftarrow> Grid_Set col x y;
               Some (\<lparr>vel_X = reflect_X e, vel_Y = gravity_Y e\<rparr>,
                     \<lparr>pos_X = of_int x, pos_Y = of_int y\<rparr>, col', False)
             }
             else Some (\<lparr>vel_X = reflect_X e, vel_Y = gravity_Y e\<rparr>,
                        \<lparr>pos_X = clamped_X e, pos_Y = tentative_Y e\<rparr>, col, True)
           });
        grid1 \<leftarrow> Grid_Clear grid (to_int (pos_X (position e))) (to_int (pos_Y (position e)));
        grid2 \<leftarrow> Grid_Set grid1 (to_int (pos_X pNext)) (to_int (pos_Y pNext));
        Some (\<lparr>position = pNext, velocity = v', Falling = falling\<rparr>, grid2, col')
      }"
  unfolding physics_entity_def var_defs Let_def by (rule refl)

lemma physics_entity_top:
  assumes "tentative_Y e < 0" "physics_entity e grid col = Some (e', grid', col')"
  shows "e' = \<lparr>position = \<lparr>pos_X = clamped_X e, pos_Y = 0\<rparr>,
               velocity = \<lparr>vel_X = reflect_X e, vel_Y = - gravity_Y e\<rparr>, Falling = True\<rparr>"
    and "col' = col"
  using assms by (auto simp: physics_entity_vars split: Option.bind_splits)

lemma physics_entity_floor:
  assumes "of_int HEIGHT \<le> tentative_Y e" "physics_entity e grid col = Some (e', grid', col')"
  shows "\<exists>y. floor_walk col (to_int (clamped_X e)) (HEIGHT - 1) = Some y \<and>
             Grid_Set col (to_int (clamped_X e)) y = Some col' \<and>
             e' = \<lparr>position = \<lparr>pos_X = clamped_X e, pos_Y = of_int y\<rparr>,
                    velocity = \<lparr>vel_X = 0, vel_Y = 0\<rparr>, Falling = False\<rparr>"
proof -
  have "\<not> tentative_Y e < 0" using assms(1) by (simp add: HEIGHT_def)
  then show ?thesis
    using assms by (auto simp: physics_entity_vars split: Option.bind_splits)
qed

lemma physics_entity_hit:
  assumes "0 \<le> tentative_Y e" "tentative_Y e < of_int HEIGHT"
    "Grid_IsSet col (to_int (clamped_X e)) (to_int (tentative_Y e)) = Some True"
    "physics_entity e grid col = Some (e', grid', col')"
  shows "\<exists>x y. settle_cell col (clamped_X e) (tentative_Y e) = Some (x, y) \<and>
             Grid_Set col x y = Some col' \<and>
             e' = \<lparr>position = \<lparr>pos_X = of_int x, pos_Y = of_int y\<rparr>,
                    velocity = \<lparr>vel_X = reflect_X e, vel_Y = gravity_Y e\<rparr>, Falling = False\<rparr>"
  using assms by (auto simp: physics_entity_vars split: Option.bind_splits)

lemma physics_entity_miss:
  assumes "0 \<le> tentative_Y e" "tentative_Y e < of_int HEIGHT"
    "Grid_IsSet col (to_int (clamped_X e)) (to_int (tentative_Y e)) = Some False"
    "physics_entity e grid col = Some (e', grid', col')"
  shows "e' = \<lparr>position = \<lparr>pos_X = clamped_X e, pos_Y = tentative_Y e\<rparr>,
               velocity = \<lparr>vel_X = reflect_X e, vel_Y = gravity_Y e\<rparr>, Falling = True\<rparr>"
    and "col' = col"
  using assms by (auto simp: physics_entity_vars split: Option.bind_splits)

lemma physics_entity_free:
  assumes "free_fall e col" "physics_entity e grid col = Some (e', grid', col')"
  shows "e' = \<lparr>position = \<lparr>pos_X = tentative_X e, pos_Y = tentative_Y e\<rparr>,
               velocity = \<lparr>vel_X = vel_X (velocity e), vel_Y = gravity_Y e\<rparr>, Falling = True\<rparr>"
    and "col' = col"
proof -
  from assms(1) have c: "clamped_X e = tentative_X e" "reflect_X e = vel_X (velocity e)"
    by (simp_all add: free_fall_def clamped_X_def reflect_X_def)
  from assms(1) have "0 \<le> tentative_Y e" "tentative_Y e < of_int HEIGHT"
    "Grid_IsSet col (to_int (clamped_X e)) (to_int (tentative_Y e)) = Some False"
    by (simp_all add: free_fall_def c)
  from physics_entity_miss[OF this assms(2)] c
  show "e' = \<lparr>position = \<lparr>pos_X = tentative_X e, pos_Y = tentative_Y e\<rparr>,
               velocity = \<lparr>vel_X = vel_X (velocity e), vel_Y = gravity_Y e\<rparr>, Falling = True\<rparr>"
    and "col' = col" by simp_all
qed

lemma gravity_Y_le: "gravity_Y e \<le> MAXVEL"
  by (simp add: gravity_Y_def)

lemma gravity_Y_mono: "vel_Y (velocity e) \<le> MAXVEL \<Longrightarrow> vel_Y (velocity e) \<le> gravity_Y e"
  by (simp add: gravity_Y_def consts_defs)





section \<open>Free fall\<close>

text \<open>
  Claim C4, as amended. On a tick of free fall the vertical velocity becomes
  \<open>min (velocity.y + GRAVITY * DELTA) MAXVEL\<close>, the horizontal velocity is unchanged, and
  the new position is the old one plus the new velocity times \<open>DELTA\<close>, componentwise; the
  particle stays Falling and the Settlement Grid is untouched. After the tick the
  vertical velocity is at most \<open>MAXVEL\<close>. It has not decreased if it was at most
  \<open>MAXVEL\<close> before, which holds from the second tick of free fall on: over two
  consecutive ticks of free fall the second never lowers it.
\<close>

theorem free_fall_step:
  "free_fall e col \<and> physics_entity e grid col = Some (e', grid', col') \<longrightarrow>
     vel_Y (velocity e') = min (vel_Y (velocity e) + GRAVITY * DELTA) MAXVEL
   \<and> vel_X (velocity e') = vel_X (velocity e)
   \<and> pos_X (position e') = pos_X (position e) + vel_X (velocity e') * DELTA
   \<and> pos_Y (position e') = pos_Y (position e) + vel_Y (velocity e') * DELTA
   \<and> Falling e' \<and> col' = col
   \<and> vel_Y (velocity e') \<le> MAXVEL
   \<and> (vel_Y (velocity e) \<le> MAXVEL \<longrightarrow> vel_Y (velocity e) \<le> vel_Y (velocity e'))
   \<and> (free_fall e' col2 \<and> physics_entity e' grid2 col2 = Some (e'', grid2', col2') \<longrightarrow>
        vel_Y (velocity e') \<le> vel_Y (velocity e'') \<and> vel_Y (velocity e'') \<le> MAXVEL)"
proof (intro impI, elim conjE)
  assume ff: "free_fall e col" and st: "physics_entity e grid col = Some (e', grid', col')"
  note r = physics_entity_free[OF ff st]
  have v1: "vel_Y (velocity e') = gravity_Y e" using r(1) by simp
  have second: "vel_Y (velocity e') \<le> vel_Y (velocity e'') \<and> vel_Y (velocity e'') \<le> MAXVEL"
    if "free_fall e' col2" "physics_entity e' grid2 col2 = Some (e'', grid2', col2')"
  proof -
    have "vel_Y (velocity e'') = gravity_Y e'" using physics_entity_free(1)[OF that] by simp
    moreover have "vel_Y (velocity e') \<le> MAXVEL" using v1 gravity_Y_le by simp
    ultimately show ?thesis using gravity_Y_mono[of e'] gravity_Y_le[of e'] by simp
  qed
  show "vel_Y (velocity e') = min (vel_Y (velocity e) + GRAVITY * DELTA) MAXVEL
   \<and> vel_X (velocity e') = vel_X (velocity e)
   \<and> pos_X (position e') = pos_X (position e) + vel_X (velocity e') * DELTA
   \<and> pos_Y (position e') = pos_Y (position e) + vel_Y (velocity e') * DELTA
   \<and> Falling e' \<and> col' = col
   \<and> vel_Y (velocity e') \<le> MAXVEL
   \<and> (vel_Y (velocity e) \<le> MAXVEL \<longrightarrow> vel_Y (velocity e) \<le> vel_Y (velocity e'))
   \<and> (free_fall e' col2 \<and> physics_entity e' grid2 col2 = Some (e'', grid2', col2') \<longrightarrow>
        vel_Y (velocity e') \<le> vel_Y (velocity e'') \<and> vel_Y (velocity e'') \<le> MAXVEL)"
    using r second gravity_Y_le[of e] gravity_Y_mono[of e]
    by (simp add: gravity_Y_def tentative_X_def tentative_Y_def mult.commute)
qed

theorem free_fall_step_witness:
  "free_fall grain_at_rest NewGrid \<and>
   physics_entity grain_at_rest (NewGrid[400 := True]) NewGrid =
     Some (grain_tick1, NewGrid[400 := True], NewGrid) \<and>
   free_fall grain_tick1 NewGrid \<and>
   physics_entity grain_tick1 (NewGrid[400 := True]) NewGrid =
     Some (grain_tick2, NewGrid[400 := True], NewGrid) \<and>
   vel_Y (velocity grain_at_rest) \<le> MAXVEL \<and>
   vel_Y (velocity grain_at_rest) \<le> vel_Y (velocity grain_tick1) \<and>
   vel_Y (velocity grain_tick1) \<le> vel_Y (velocity grain_tick2) \<and>
   vel_Y (velocity grain_tick2) \<le> MAXVEL \<and>
   pos_Y (position grain_tick1) =
     pos_Y (position grain_at_rest) + vel_Y (velocity grain_tick1) * DELTA"
proof -
  have h1: "free_fall grain_at_rest NewGrid"
    by (simp add: free_fall_def var_defs eval_defs grain_at_rest_def)
  have h2: "physics_entity grain_at_rest (NewGrid[400 := True]) NewGrid =
     Some (grain_tick1, NewGrid[400 := True], NewGrid)"
    by (simp add: eval_defs grain_at_rest_def grain_tick1_def)
  have h3: "free_fall grain_tick1 NewGrid"
    by (simp add: free_fall_def var_defs eval_defs grain_tick1_def)
  have h4: "physics_entity grain_tick1 (NewGrid[400 := True]) NewGrid =
     Some (grain_tick2, NewGrid[400 := True], NewGrid)"
    by (simp add: eval_defs grain_tick1_def grain_tick2_def)
  have h5: "vel_Y (velocity grain_at_rest) \<le> MAXVEL"
    by (simp add: grain_at_rest_def consts_defs)
  have "vel_Y (velocity grain_at_rest) \<le> vel_Y (velocity grain_tick1) \<and>
   vel_Y (velocity grain_tick1) \<le> vel_Y (velocity grain_tick2) \<and>
   vel_Y (velocity grain_tick2) \<le> MAXVEL \<and>
   pos_Y (position grain_tick1) =
     pos_Y (position grain_at_rest) + vel_Y (velocity grain_tick1) * DELTA"
    using free_fall_step[of grain_at_rest NewGrid "NewGrid[400 := True]" grain_tick1
        "NewGrid[400 := True]" NewGrid NewGrid "NewGrid[400 := True]" grain_tick2
        "NewGrid[400 := True]" NewGrid] h1 h2 h3 h4 h5
    by blast
  then show ?thesis using h1 h2 h3 h4 h5 by blast
qed

text \<open>
  The claim as stated fails on the first tick of a particle that is created faster than
  \<^verbatim>\<open>MAXVEL\<close>. After the pointer has moved from \<open>(400, 0)\<close> to \<open>(400, 10)\<close>, a press
  creates \<open>fast_grain\<close> with vertical velocity \<open>320\<close>; its first tick is a tick of free
  fall and lowers the velocity to \<open>256\<close>.
\<close>

theorem clamp_lowers_velocity_counterexample:
  "map_option world
     (case Simulate_run [ev_at 400 0 DirNone] Simulate_init of
        None \<Rightarrow> None
      | Some s \<Rightarrow> Simulate_spawn (0, 0, 0, 0)
          (Simulate_events (Some \<lparr>ev_X = 400, ev_Y = 10, ev_Direction = DirPress\<rparr>) s)) =
     Some [fast_grain] \<and>
   free_fall fast_grain NewGrid \<and>
   map_option fst (physics_entity fast_grain (NewGrid[8400 := True]) NewGrid) =
     Some \<lparr>position = \<lparr>pos_X = 400, pos_Y = 14\<rparr>,
           velocity = \<lparr>vel_X = 0, vel_Y = 256\<rparr>, Falling = True\<rparr> \<and>
   vel_Y (velocity fast_grain) = 320"
  by (simp add: free_fall_def var_defs eval_defs fast_grain_def)

section \<open>Grids and the floor walk\<close>

lemma Grid_IsSet_Some_iff:
  "Grid_IsSet g x y = Some b \<longleftrightarrow>
     0 \<le> x + WIDTH * y \<and> x + WIDTH * y < int (length g) \<and> g ! nat (x + WIDTH * y) = b"
  by (auto simp: Grid_IsSet_def Let_def)

lemma Grid_Set_Some_iff:
  "Grid_Set g x y = Some g' \<longleftrightarrow>
     0 \<le> x + WIDTH * y \<and> x + WIDTH * y < int (length g) \<and> g' = g[nat (x + WIDTH * y) := True]"
  by (auto simp: Grid_Set_def Let_def)

lemma Grid_Clear_Some_iff:
  "Grid_Clear g x y = Some g' \<longleftrightarrow>
     0 \<le> x + WIDTH * y \<and> x + WIDTH * y < int (length g) \<and> g' = g[nat (x + WIDTH * y) := False]"
  by (auto simp: Grid_Clear_def Let_def)

lemma Grid_Set_IsSet: "Grid_Set g x y = Some g' \<Longrightarrow> Grid_IsSet g' x y = Some True"
  by (auto simp: Grid_Set_Some_iff Grid_IsSet_Some_iff)

lemma Grid_Set_keeps:
  "Grid_Set g x y = Some g' \<Longrightarrow> Grid_IsSet g a b = Some True \<Longrightarrow> Grid_IsSet g' a b = Some True"
  by (auto simp: Grid_Set_Some_iff Grid_IsSet_Some_iff nth_list_update)

lemma floor_walk_Some:
  "floor_walk col x y0 = Some y \<Longrightarrow>
   y \<le> y0 \<and> Grid_IsSet col x y = Some False \<and>
   (\<forall>r. y < r \<and> r \<le> y0 \<longrightarrow> Grid_IsSet col x r = Some True)"
proof (induction col x y0 rule: floor_walk.induct)
  case (1 col x y0)
  show ?case
  proof (cases "Grid_IsSet col x y0")
    case None
    with "1.prems" show ?thesis by (simp add: floor_walk.simps)
  next
    case (Some b)
    show ?thesis
    proof (cases b)
      case True
      with Some "1.prems" have w: "floor_walk col x (y0 - 1) = Some y"
        by (simp add: floor_walk.simps)
      from "1.IH"[OF Some True w] have ih: "y \<le> y0 - 1" "Grid_IsSet col x y = Some False"
        "\<forall>r. y < r \<and> r \<le> y0 - 1 \<longrightarrow> Grid_IsSet col x r = Some True" by auto
      have "Grid_IsSet col x r = Some True" if "y < r" "r \<le> y0" for r
      proof (cases "r = y0")
        case True
        then show ?thesis using Some \<open>b\<close> by simp
      next
        case False
        with that have "r \<le> y0 - 1" by simp
        with ih(3) that show ?thesis by blast
      qed
      with ih show ?thesis by auto
    next
      case False
      with Some "1.prems" have "y = y0" by (simp add: floor_walk.simps)
      with Some False show ?thesis by auto
    qed
  qed
qed

lemma to_int_of_int [simp]: "to_int (of_int k) = k"
  by (simp add: to_int_def)

lemma to_int_nonneg: "0 \<le> f \<Longrightarrow> 0 \<le> to_int f"
  by (simp add: to_int_def)

lemma to_int_less: "0 \<le> f \<Longrightarrow> f < of_int k \<Longrightarrow> to_int f < k"
  by (simp add: to_int_def floor_less_iff)

lemma clamped_X_range: "0 \<le> clamped_X e \<and> clamped_X e < of_int WIDTH"
  by (auto simp: clamped_X_def WIDTH_def)

lemma to_int_clamped_X: "0 \<le> to_int (clamped_X e) \<and> to_int (clamped_X e) < WIDTH"
  using clamped_X_range[of e] by (simp add: to_int_nonneg to_int_less)

lemma settle_cell_unsettled:
  assumes "settle_cell col px py = Some (x, y)" "\<not> both_neighbours_settled col px py"
  shows "Grid_IsSet col x y = Some False"
  using assms
  by (auto simp: settle_cell_def both_neighbours_settled_def Let_def
           split: Option.bind_splits if_splits)

lemma Grid_IsSet_in_range:
  assumes "length g = nat (WIDTH * HEIGHT)" "0 \<le> x" "x < WIDTH" "0 \<le> y" "y < HEIGHT"
  shows "Grid_IsSet g x y = Some (g ! nat (x + WIDTH * y))"
proof -
  have "x + WIDTH * y \<le> 799 + 800 * 799" using assms by (simp add: WIDTH_def HEIGHT_def)
  then show ?thesis using assms by (simp add: Grid_IsSet_def Let_def WIDTH_def HEIGHT_def)
qed

lemma Grid_Set_in_range:
  assumes "length g = nat (WIDTH * HEIGHT)" "0 \<le> x" "x < WIDTH" "0 \<le> y" "y < HEIGHT"
  shows "Grid_Set g x y = Some (g[nat (x + WIDTH * y) := True])"
proof -
  have "x + WIDTH * y \<le> 799 + 800 * 799" using assms by (simp add: WIDTH_def HEIGHT_def)
  then show ?thesis using assms by (simp add: Grid_Set_def Let_def WIDTH_def HEIGHT_def)
qed

lemma Grid_Clear_in_range:
  assumes "length g = nat (WIDTH * HEIGHT)" "0 \<le> x" "x < WIDTH" "0 \<le> y" "y < HEIGHT"
  shows "Grid_Clear g x y = Some (g[nat (x + WIDTH * y) := False])"
proof -
  have "x + WIDTH * y \<le> 799 + 800 * 799" using assms by (simp add: WIDTH_def HEIGHT_def)
  then show ?thesis using assms by (simp add: Grid_Clear_def Let_def WIDTH_def HEIGHT_def)
qed

lemma floor_walk_total:
  assumes "length col = nat (WIDTH * HEIGHT)" "0 \<le> x" "x < WIDTH"
    "0 \<le> r" "r \<le> y0" "y0 < HEIGHT" "Grid_IsSet col x r = Some False"
  shows "\<exists>y. floor_walk col x y0 = Some y \<and> r \<le> y"
  using assms
proof (induction col x y0 rule: floor_walk.induct)
  case (1 col x y0)
  have rng: "Grid_IsSet col x y0 = Some (col ! nat (x + WIDTH * y0))"
    using "1.prems" by (intro Grid_IsSet_in_range) auto
  show ?case
  proof (cases "col ! nat (x + WIDTH * y0)")
    case True
    with rng "1.prems"(7) have "r \<noteq> y0" by auto
    with "1.prems" have le: "r \<le> y0 - 1" "y0 - 1 < HEIGHT" by auto
    from "1.IH"[OF rng True "1.prems"(1-4) le "1.prems"(7)]
    show ?thesis using rng True by (simp add: floor_walk.simps[of col x y0])
  next
    case False
    then show ?thesis using rng "1.prems" by (simp add: floor_walk.simps[of col x y0])
  qed
qed

lemma physics_entity_floor_total:
  assumes fl: "of_int HEIGHT \<le> tentative_Y e"
    and len: "length col = nat (WIDTH * HEIGHT)" "length grid = nat (WIDTH * HEIGHT)"
    and dom: "in_domain (position e)"
    and free: "0 \<le> r" "r < HEIGHT" "Grid_IsSet col (to_int (clamped_X e)) r = Some False"
  shows "physics_entity e grid col \<noteq> None"
proof -
  let ?x = "to_int (clamped_X e)"
  have x: "0 \<le> ?x" "?x < WIDTH" using to_int_clamped_X[of e] by simp_all
  from floor_walk_total[OF len(1) x free(1) _ _ free(3), of "HEIGHT - 1"] free(2)
  obtain y where w: "floor_walk col ?x (HEIGHT - 1) = Some y" and ry: "r \<le> y" by auto
  from floor_walk_Some[OF w] have yle: "y \<le> HEIGHT - 1" by simp
  have y: "0 \<le> y" "y < HEIGHT" using ry free(1) yle by simp_all
  have s: "Grid_Set col ?x y = Some (col[nat (?x + WIDTH * y) := True])"
    using Grid_Set_in_range[OF len(1) x y] .
  have ox: "0 \<le> to_int (pos_X (position e))" "to_int (pos_X (position e)) < WIDTH"
    and oy: "0 \<le> to_int (pos_Y (position e))" "to_int (pos_Y (position e)) < HEIGHT"
    using dom by (simp_all add: in_domain_def to_int_nonneg to_int_less)
  have c: "Grid_Clear grid (to_int (pos_X (position e))) (to_int (pos_Y (position e))) =
      Some (grid[nat (to_int (pos_X (position e)) + WIDTH * to_int (pos_Y (position e))) := False])"
    using Grid_Clear_in_range[OF len(2) ox oy] .
  have s2: "Grid_Set (grid[nat (to_int (pos_X (position e)) + WIDTH * to_int (pos_Y (position e))) := False]) ?x y \<noteq> None"
    using Grid_Set_in_range[of "grid[nat (to_int (pos_X (position e)) + WIDTH * to_int (pos_Y (position e))) := False]" ?x y]
      len(2) x y by simp
  have nt: "\<not> tentative_Y e < 0" using fl by (simp add: HEIGHT_def)
  show ?thesis
    using nt fl w s c s2 by (auto simp: physics_entity_vars)
qed

section \<open>Velocity at settlement\<close>

text \<open>
  Claim C5. The floor branch zeroes both velocity components
  (\<open>physics_entity_floor\<close>), the mid-air branch does not. From \<open>stack_state\<close>, which the
  loop reaches from its initial state, a press creates \<open>above_stack\<close>; on the same tick
  the particle meets the settled cell \<open>(5, 798)\<close>, is put to rest in \<open>(4, 798)\<close> and
  keeps the velocity that gravity gave it on this tick, \<open>(0, 7.65625)\<close>.
\<close>

theorem midair_settlement_keeps_velocity:
  "Simulate_run stack_inputs Simulate_init = Some stack_state \<and>
   map_option world (Simulate_spawn (0, 0, 0, 0)
     (Simulate_events (Some \<lparr>ev_X = 11 / 2, ev_Y = 12767 / 16, ev_Direction = DirPress\<rparr>)
        stack_state)) = Some (world stack_state @ [above_stack]) \<and>
   0 \<le> tentative_Y above_stack \<and> tentative_Y above_stack < of_int HEIGHT \<and>
   Grid_IsSet stack_col (to_int (clamped_X above_stack)) (to_int (tentative_Y above_stack)) =
     Some True \<and>
   map_option fst (physics_entity above_stack stack_grid stack_col) =
     Some \<lparr>position = \<lparr>pos_X = 4, pos_Y = 798\<rparr>,
           velocity = \<lparr>vel_X = 0, vel_Y = 245 / 32\<rparr>, Falling = False\<rparr> \<and>
   map_option (\<lambda>s. world s ! 2)
     (Simulate_tick (ev_at (11 / 2) (12767 / 16) DirPress) stack_state) =
     Some \<lparr>position = \<lparr>pos_X = 4, pos_Y = 798\<rparr>,
           velocity = \<lparr>vel_X = 0, vel_Y = 245 / 32\<rparr>, Falling = False\<rparr>"
  by (simp add: var_defs eval_defs floor_walk.simps stack_inputs_def stack_state_def
        above_stack_def stack_grid_def stack_col_def)

section \<open>The spawn decision\<close>

text \<open>
  Claim C2. The decision reads the Occupancy Grid at
  \<open>(int(source.p.X), int(source.p.X))\<close>. In \<open>pressed_state\<close> the source is active at
  \<open>(5.5, 10.5)\<close>, the count is below \<^verbatim>\<open>MAXSAND\<close> and the cell \<open>(5, 10)\<close> of the source
  is set (the particle of the previous tick is still in it); the cell read is
  \<open>(5, 5)\<close>, which is not set, and a second particle is created.
\<close>

theorem spawn_reads_diagonal_cell:
  "Simulate_run [ev_at (11 / 2) (21 / 2) DirNone, ev_at (11 / 2) (21 / 2) DirPress] Simulate_init =
     Some pressed_state \<and>
   isActive (source pressed_state) \<and> sandCount pressed_state < MAXSAND \<and>
   Grid_IsSet (gridLocal pressed_state) (to_int (pos_X (src_p (source pressed_state))))
     (to_int (pos_Y (src_p (source pressed_state)))) = Some True \<and>
   length (world pressed_state) = 1 \<and> sandCount pressed_state = 1 \<and>
   map_option (\<lambda>s. (length (world s), sandCount s)) (Simulate_spawn (0, 0, 0, 0) pressed_state) =
     Some (2, 2)"
  by (simp add: eval_defs pressed_state_def)

section \<open>The tie-break of the mid-air branch\<close>

text \<open>
  Claim C1. From \<open>stack_state\<close>, which the loop reaches from its initial state, a press
  creates \<open>above_stack\<close>, whose tentative cell \<open>(5, 798)\<close> is settled; neither
  neighbour is settled and the left one, column 4, is even, so column 4 is chosen. The
  cell \<open>(4, 799)\<close> below is not settled. \<^verbatim>\<open>ApplyPhysics\<close> of
  \<^verbatim>\<open>cmd/sandbox/sandbox.go\<close> marks \<open>(4, 798)\<close> and leaves the particle there, without
  the slide; the loop of the revision with the re-scan ends in \<open>(4, 799)\<close>.
\<close>

theorem no_slide_after_choice:
  "Simulate_run stack_inputs Simulate_init = Some stack_state \<and>
   0 \<le> tentative_Y above_stack \<and> tentative_Y above_stack < of_int HEIGHT \<and>
   (to_int (clamped_X above_stack), to_int (tentative_Y above_stack)) = (5, 798) \<and>
   Grid_IsSet stack_col 5 798 = Some True \<and>
   Grid_IsSet stack_col 4 798 = Some False \<and> Grid_IsSet stack_col 6 798 = Some False \<and>
   Grid_IsSet stack_col 4 799 = Some False \<and>
   map_option (\<lambda>(e, g, c). (cell_of e, Falling e, Grid_IsSet c 4 798, Grid_IsSet c 4 799))
     (physics_entity above_stack stack_grid stack_col) =
     Some ((4, 798), False, Some True, Some False) \<and>
   map_option (\<lambda>s. (map cell_of (world s), Grid_IsSet (collision s) 4 798,
                        Grid_IsSet (collision s) 4 799))
     (Simulate_tick (ev_at (11 / 2) (12767 / 16) DirPress) stack_state) =
     Some ([(5, 799), (5, 798), (4, 798)], Some True, Some False) \<and>
   rescan_settle stack_col 5 798 = Some (4, 799)"
  by (simp add: var_defs eval_defs floor_walk.simps cell_of_def stack_inputs_def stack_state_def
        above_stack_def stack_grid_def stack_col_def rescan_settle_def rescan.simps
        slide_down.simps)

section \<open>Cells shared by particles\<close>

text \<open>
  The claim C7 as stated fails: a falling particle is never tested against the
  Occupancy Grid. From \<open>pressed_state\<close> the pointer moves up to \<open>(5.5, 9.875)\<close>; the
  cell \<open>(5, 9)\<close> of the source and the cell \<open>(5, 5)\<close> that the decision reads are both
  free, a second particle is created in \<open>(5, 9)\<close>, and the same tick moves it into the
  cell \<open>(5, 10)\<close>, where the first particle still is.
\<close>

theorem two_grains_one_cell_counterexample:
  "Simulate_run [ev_at (11 / 2) (21 / 2) DirNone, ev_at (11 / 2) (21 / 2) DirPress] Simulate_init =
     Some pressed_state \<and>
   Grid_IsSet (gridLocal pressed_state) 5 9 = Some False \<and>
   Grid_IsSet (gridLocal pressed_state) 5 5 = Some False \<and>
   map_option (\<lambda>s. map cell_of (world s))
     (Simulate_tick \<lparr>event = Some \<lparr>ev_X = 11 / 2, ev_Y = 79 / 8, ev_Direction = DirNone\<rparr>,
                     rands = (0, 0, 3 / 4, 0)\<rparr> pressed_state) =
     Some [(5, 10), (5, 10)]"
  by (simp add: eval_defs cell_of_def pressed_state_def)

text \<open>
  Claim C7, as amended. Settlement lands a particle on a cell that was not marked in the
  Settlement Grid before, and marks it, whenever the particle settles on the floor or in
  the mid-air branch with at least one horizontal neighbour unsettled. (Falling
  particles are not kept apart, as the counterexample shows.)
\<close>

theorem settlement_lands_on_free_cell:
  "physics_entity e grid col = Some (e', grid', col') \<and> \<not> Falling e' \<and>
   (of_int HEIGHT \<le> tentative_Y e \<or>
    \<not> both_neighbours_settled col (clamped_X e) (tentative_Y e)) \<longrightarrow>
   Grid_IsSet col (fst (cell_of e')) (snd (cell_of e')) = Some False \<and>
   Grid_IsSet col' (fst (cell_of e')) (snd (cell_of e')) = Some True"
proof (intro impI, elim conjE)
  assume st: "physics_entity e grid col = Some (e', grid', col')"
    and nf: "\<not> Falling e'"
    and br: "of_int HEIGHT \<le> tentative_Y e \<or>
      \<not> both_neighbours_settled col (clamped_X e) (tentative_Y e)"
  show "Grid_IsSet col (fst (cell_of e')) (snd (cell_of e')) = Some False \<and>
   Grid_IsSet col' (fst (cell_of e')) (snd (cell_of e')) = Some True"
  proof (cases "of_int HEIGHT \<le> tentative_Y e")
    case True
    from physics_entity_floor[OF True st] obtain y where
      w: "floor_walk col (to_int (clamped_X e)) (HEIGHT - 1) = Some y"
      and s: "Grid_Set col (to_int (clamped_X e)) y = Some col'"
      and e': "e' = \<lparr>position = \<lparr>pos_X = clamped_X e, pos_Y = of_int y\<rparr>,
                    velocity = \<lparr>vel_X = 0, vel_Y = 0\<rparr>, Falling = False\<rparr>" by blast
    have c: "cell_of e' = (to_int (clamped_X e), y)" using e' by (simp add: cell_of_def)
    from floor_walk_Some[OF w] Grid_Set_IsSet[OF s] c show ?thesis by simp
  next
    case False
    then have lt: "tentative_Y e < of_int HEIGHT" by simp
    from False br have nb: "\<not> both_neighbours_settled col (clamped_X e) (tentative_Y e)"
      by blast
    have ge: "0 \<le> tentative_Y e"
    proof (rule ccontr)
      assume "\<not> 0 \<le> tentative_Y e"
      then have "tentative_Y e < 0" by simp
      from physics_entity_top(1)[OF this st] nf show False by simp
    qed
    have "Grid_IsSet col (to_int (clamped_X e)) (to_int (tentative_Y e)) \<noteq> None"
      using st ge lt by (auto simp: physics_entity_vars split: Option.bind_splits)
    then obtain b where b: "Grid_IsSet col (to_int (clamped_X e)) (to_int (tentative_Y e)) = Some b"
      by blast
    have "b"
    proof (rule ccontr)
      assume "\<not> b"
      with b have "Grid_IsSet col (to_int (clamped_X e)) (to_int (tentative_Y e)) = Some False"
        by simp
      from physics_entity_miss(1)[OF ge lt this st] nf show False by simp
    qed
    with b have hit: "Grid_IsSet col (to_int (clamped_X e)) (to_int (tentative_Y e)) = Some True"
      by simp
    from physics_entity_hit[OF ge lt hit st] obtain x y where
      sc: "settle_cell col (clamped_X e) (tentative_Y e) = Some (x, y)"
      and s: "Grid_Set col x y = Some col'"
      and e': "e' = \<lparr>position = \<lparr>pos_X = of_int x, pos_Y = of_int y\<rparr>,
                    velocity = \<lparr>vel_X = reflect_X e, vel_Y = gravity_Y e\<rparr>, Falling = False\<rparr>"
      by blast
    have c: "cell_of e' = (x, y)" using e' by (simp add: cell_of_def)
    from settle_cell_unsettled[OF sc nb] Grid_Set_IsSet[OF s] c show ?thesis by simp
  qed
qed

theorem settlement_lands_on_free_cell_witness:
  "physics_entity above_stack stack_grid stack_col =
     Some (\<lparr>position = \<lparr>pos_X = 4, pos_Y = 798\<rparr>,
            velocity = \<lparr>vel_X = 0, vel_Y = 245 / 32\<rparr>, Falling = False\<rparr>,
           (replicate 640000 False)[639205 := False, 638405 := True, 637605 := False, 638404 := True],
           (replicate 640000 False)[639205 := True, 638405 := True, 638404 := True]) \<and>
   \<not> both_neighbours_settled stack_col (clamped_X above_stack) (tentative_Y above_stack) \<and>
   Grid_IsSet stack_col 4 798 = Some False \<and>
   Grid_IsSet ((replicate 640000 False)[639205 := True, 638405 := True, 638404 := True]) 4 798 =
     Some True"
proof -
  let ?e = "\<lparr>position = \<lparr>pos_X = 4, pos_Y = 798\<rparr>,
            velocity = \<lparr>vel_X = 0, vel_Y = 245 / 32\<rparr>, Falling = False\<rparr>"
  let ?g = "(replicate 640000 False)[639205 := False, 638405 := True, 637605 := False, 638404 := True]"
  let ?c = "(replicate 640000 False)[639205 := True, 638405 := True, 638404 := True]"
  have h1: "physics_entity above_stack stack_grid stack_col = Some (?e, ?g, ?c)"
    by (simp add: eval_defs above_stack_def stack_grid_def stack_col_def)
  have h2: "\<not> Falling ?e" by simp
  have h3: "\<not> both_neighbours_settled stack_col (clamped_X above_stack) (tentative_Y above_stack)"
    by (simp add: both_neighbours_settled_def var_defs eval_defs above_stack_def stack_col_def)
  have h4: "cell_of ?e = (4, 798)" by (simp add: cell_of_def to_int_def)
  have "Grid_IsSet stack_col 4 798 = Some False \<and> Grid_IsSet ?c 4 798 = Some True"
    using settlement_lands_on_free_cell[of above_stack stack_grid stack_col ?e ?g ?c] h1 h2 h3 h4
    by simp
  then show ?thesis using h1 h3 by blast
qed

section \<open>Settlement on the floor\<close>

lemma Simulate_run_append:
  "Simulate_run (xs @ ys) s =
     (case Simulate_run xs s of None \<Rightarrow> None | Some s' \<Rightarrow> Simulate_run ys s')"
  by (induction xs arbitrary: s) (auto split: option.splits)

lemma funpow_numeral_step: "(f ^^ numeral k) x = (f ^^ pred_numeral k) (f x)"
  by (simp add: numeral_eq_Suc funpow_swap1)

lemma fall_fst_snd:
  "fst (fall (y, v)) = y + DELTA * min (v + DELTA * GRAVITY) MAXVEL"
  "snd (fall (y, v)) = min (v + DELTA * GRAVITY) MAXVEL"
  by (simp_all add: fall_def Let_def)

lemma fall_mono:
  assumes "0 \<le> v"
  shows "y \<le> fst (fall (y, v))" "0 \<le> snd (fall (y, v))"
  using assms by (simp_all add: fall_fst_snd consts_defs)

lemma fall_funpow_mono:
  "0 \<le> v \<Longrightarrow> y \<le> fst ((fall ^^ n) (y, v)) \<and> 0 \<le> snd ((fall ^^ n) (y, v))"
proof (induction n arbitrary: y v)
  case 0
  then show ?case by simp
next
  case (Suc n)
  have eq: "(fall ^^ Suc n) (y, v) = (fall ^^ n) (fst (fall (y, v)), snd (fall (y, v)))"
    by (simp add: funpow_swap1)
  from fall_mono[OF Suc.prems, of y] Suc.IH[of "snd (fall (y, v))" "fst (fall (y, v))"]
  show ?case unfolding eq by auto
qed

lemma QueryAll_Falling_single: "QueryAll_Falling [e] = (if Falling e then [0] else [])"
  by (simp add: QueryAll_Falling_def)

lemma lone_tick:
  assumes l: "lone_falling s y v" and y: "0 \<le> y" and v: "0 \<le> v"
    and lt: "fst (fall (y, v)) < 800"
  shows "\<exists>s'. Simulate_tick idle s = Some s' \<and>
              lone_falling s' (fst (fall (y, v))) (snd (fall (y, v)))"
proof -
  let ?e = "\<lparr>position = \<lparr>pos_X = 400, pos_Y = y\<rparr>,
            velocity = \<lparr>vel_X = 0, vel_Y = v\<rparr>, Falling = True\<rparr>"
  let ?ty = "fst (fall (y, v))"
  from l have w: "world s = [?e]" and c: "collision s = NewGrid"
    and len: "length (gridLocal s) = nat (WIDTH * HEIGHT)" and na: "\<not> isActive (source s)"
    by (simp_all add: lone_falling_def)
  have ty: "tentative_Y ?e = ?ty" "gravity_Y ?e = snd (fall (y, v))"
    by (simp_all add: var_defs fall_fst_snd)
  have tx: "tentative_X ?e = 400" "clamped_X ?e = 400" "reflect_X ?e = 0"
    by (simp_all add: var_defs consts_defs)
  have yty: "y \<le> ?ty" using fall_mono[OF v] by simp
  have ty0: "0 \<le> ?ty" using y yty by simp
  have y800: "y < 800" using yty lt by simp
  have cy: "0 \<le> to_int ?ty" "to_int ?ty < HEIGHT"
    using ty0 lt by (simp_all add: to_int_nonneg to_int_less HEIGHT_def)
  have oy: "0 \<le> to_int y" "to_int y < HEIGHT"
    using y y800 by (simp_all add: to_int_nonneg to_int_less HEIGHT_def)
  have x4: "to_int 400 = 400" by (simp add: to_int_def)
  have lenN: "length NewGrid = nat (WIDTH * HEIGHT)" by (simp add: NewGrid_def)
  have miss: "Grid_IsSet NewGrid 400 (to_int ?ty) = Some False"
  proof -
    have "400 + WIDTH * to_int ?ty \<le> 400 + 800 * 799" using cy by (simp add: consts_defs)
    then have "nat (400 + WIDTH * to_int ?ty) < nat (WIDTH * HEIGHT)"
      using cy by (simp add: consts_defs)
    then show ?thesis
      using Grid_IsSet_in_range[OF lenN, of 400 "to_int ?ty"] cy
      by (simp add: NewGrid_def WIDTH_def)
  qed
  obtain g1 where g1: "Grid_Clear (gridLocal s) 400 (to_int y) = Some g1"
    and l1: "length g1 = nat (WIDTH * HEIGHT)"
    using Grid_Clear_in_range[OF len, of 400 "to_int y"] oy len by (simp add: WIDTH_def)
  obtain g2 where g2: "Grid_Set g1 400 (to_int ?ty) = Some g2"
    and l2: "length g2 = nat (WIDTH * HEIGHT)"
    using Grid_Set_in_range[OF l1, of 400 "to_int ?ty"] cy l1 by (simp add: WIDTH_def)
  have nt: "\<not> ?ty < 0" "\<not> of_int HEIGHT \<le> ?ty" using ty0 lt by (simp_all add: HEIGHT_def)
  have pe: "physics_entity ?e (gridLocal s) NewGrid =
      Some (\<lparr>position = \<lparr>pos_X = 400, pos_Y = ?ty\<rparr>,
              velocity = \<lparr>vel_X = 0, vel_Y = snd (fall (y, v))\<rparr>, Falling = True\<rparr>, g2, NewGrid)"
    using nt miss g1 g2 by (simp add: physics_entity_vars ty tx x4)
  have "Simulate_tick idle s =
      Some (s\<lparr>world := [\<lparr>position = \<lparr>pos_X = 400, pos_Y = ?ty\<rparr>,
              velocity = \<lparr>vel_X = 0, vel_Y = snd (fall (y, v))\<rparr>, Falling = True\<rparr>],
              gridLocal := g2, collision := NewGrid\<rparr>)"
    using na w c pe
    by (simp add: Simulate_tick_def idle_def Simulate_events_def Simulate_spawn_def
          Simulate_physics_def ApplyPhysics_def QueryAll_Falling_single)
  then show ?thesis using l2 na by (simp add: lone_falling_def)
qed

lemma lone_run:
  "lone_falling s y v \<Longrightarrow> 0 \<le> y \<Longrightarrow> 0 \<le> v \<Longrightarrow> fst ((fall ^^ n) (y, v)) < 800 \<Longrightarrow>
   \<exists>s'. Simulate_run (replicate n idle) s = Some s' \<and>
        lone_falling s' (fst ((fall ^^ n) (y, v))) (snd ((fall ^^ n) (y, v)))"
proof (induction n arbitrary: s y v)
  case 0
  then show ?case by simp
next
  case (Suc n)
  let ?y1 = "fst (fall (y, v))" and ?v1 = "snd (fall (y, v))"
  have eq: "(fall ^^ Suc n) (y, v) = (fall ^^ n) (?y1, ?v1)"
    by (simp add: funpow_swap1)
  have v1: "0 \<le> ?v1" and y1: "0 \<le> ?y1"
    using fall_mono[OF Suc.prems(3), of y] Suc.prems(2) by simp_all
  have "?y1 \<le> fst ((fall ^^ n) (?y1, ?v1))" using fall_funpow_mono[OF v1] by blast
  with Suc.prems(4) have lt1: "?y1 < 800" unfolding eq by simp
  from lone_tick[OF Suc.prems(1-3) lt1] obtain s1 where
    t: "Simulate_tick idle s = Some s1" and l1: "lone_falling s1 ?y1 ?v1" by blast
  from Suc.prems(4) have lt: "fst ((fall ^^ n) (?y1, ?v1)) < 800" unfolding eq .
  from Suc.IH[OF l1 y1 v1 lt] obtain s' where
    "Simulate_run (replicate n idle) s1 = Some s'"
    "lone_falling s' (fst ((fall ^^ n) (?y1, ?v1))) (snd ((fall ^^ n) (?y1, ?v1)))" by blast
  then show ?case using t unfolding eq by simp
qed

lemma lone_landing:
  assumes l: "lone_falling s y v" and y: "0 \<le> y" "y < 800"
    and fl: "800 \<le> fst (fall (y, v))"
  shows "\<exists>s'. Simulate_tick idle s = Some s' \<and>
              world s' = [\<lparr>position = \<lparr>pos_X = 400, pos_Y = 799\<rparr>,
                           velocity = \<lparr>vel_X = 0, vel_Y = 0\<rparr>, Falling = False\<rparr>] \<and>
              collision s' = NewGrid[639600 := True]"
proof -
  let ?e = "\<lparr>position = \<lparr>pos_X = 400, pos_Y = y\<rparr>,
            velocity = \<lparr>vel_X = 0, vel_Y = v\<rparr>, Falling = True\<rparr>"
  let ?ty = "fst (fall (y, v))"
  from l have w: "world s = [?e]" and c: "collision s = NewGrid"
    and len: "length (gridLocal s) = nat (WIDTH * HEIGHT)" and na: "\<not> isActive (source s)"
    by (simp_all add: lone_falling_def)
  have ty: "tentative_Y ?e = ?ty" by (simp add: var_defs fall_fst_snd)
  have tx: "clamped_X ?e = 400" by (simp add: var_defs consts_defs)
  have oy: "0 \<le> to_int y" "to_int y < HEIGHT"
    using y by (simp_all add: to_int_nonneg to_int_less HEIGHT_def)
  have x4: "to_int 400 = 400" "to_int 799 = 799" by (simp_all add: to_int_def)
  have walk: "floor_walk NewGrid 400 (HEIGHT - 1) = Some 799"
    by (simp add: floor_walk.simps eval_defs)
  have set: "Grid_Set NewGrid 400 799 = Some (NewGrid[639600 := True])"
    by (simp add: eval_defs)
  obtain g1 where g1: "Grid_Clear (gridLocal s) 400 (to_int y) = Some g1"
    and l1: "length g1 = nat (WIDTH * HEIGHT)"
    using Grid_Clear_in_range[OF len, of 400 "to_int y"] oy len by (simp add: WIDTH_def)
  obtain g2 where g2: "Grid_Set g1 400 799 = Some g2"
    using Grid_Set_in_range[OF l1, of 400 799] by (simp add: consts_defs)
  have nt: "\<not> ?ty < 0" "of_int HEIGHT \<le> ?ty" using fl by (simp_all add: HEIGHT_def)
  have pe: "physics_entity ?e (gridLocal s) NewGrid =
      Some (\<lparr>position = \<lparr>pos_X = 400, pos_Y = 799\<rparr>,
              velocity = \<lparr>vel_X = 0, vel_Y = 0\<rparr>, Falling = False\<rparr>, g2, NewGrid[639600 := True])"
    using nt walk set g1 g2 by (simp add: physics_entity_vars ty tx x4)
  show ?thesis
    using na w c pe
    by (simp add: Simulate_tick_def idle_def Simulate_events_def Simulate_spawn_def
          Simulate_physics_def ApplyPhysics_def QueryAll_Falling_single)
qed

lemma drop_start:
  "\<exists>s. Simulate_run [ev_at 400 0 DirNone, ev_at 400 0 DirPress, ev_at 400 0 DirRelease]
          Simulate_init = Some s \<and> lone_falling s (735 / 2048) (245 / 16)"
  by (simp add: eval_defs lone_falling_def)

lemma fall_214: "(fall ^^ 214) (735 / 2048, 245 / 16) = (1636581 / 2048, 256)"
  by (simp add: funpow_numeral_step fall_def Let_def consts_defs)

lemma drop_scenario:
  "\<exists>s. Simulate_run drop_inputs Simulate_init = Some s \<and>
       world s = [\<lparr>position = \<lparr>pos_X = 400, pos_Y = 799\<rparr>,
                   velocity = \<lparr>vel_X = 0, vel_Y = 0\<rparr>, Falling = False\<rparr>] \<and>
       collision s = NewGrid[639600 := True]"
proof -
  from drop_start obtain s3 where
    r3: "Simulate_run [ev_at 400 0 DirNone, ev_at 400 0 DirPress, ev_at 400 0 DirRelease]
          Simulate_init = Some s3" and l3: "lone_falling s3 (735 / 2048) (245 / 16)" by blast
  have "fst ((fall ^^ 214) (735 / 2048, 245 / 16)) < 800" by (simp add: fall_214)
  from lone_run[OF l3 _ _ this] obtain s4 where
    r4: "Simulate_run (replicate 214 idle) s3 = Some s4"
    and l4: "lone_falling s4 (1636581 / 2048) 256" by (auto simp: fall_214)
  have "800 \<le> fst (fall (1636581 / 2048, 256))"
    by (simp add: fall_def Let_def consts_defs)
  from lone_landing[OF l4 _ _ this] obtain s5 where
    r5: "Simulate_tick idle s4 = Some s5"
    and w5: "world s5 = [\<lparr>position = \<lparr>pos_X = 400, pos_Y = 799\<rparr>,
                   velocity = \<lparr>vel_X = 0, vel_Y = 0\<rparr>, Falling = False\<rparr>]"
      "collision s5 = NewGrid[639600 := True]" by auto
  have "replicate (214 + 1) idle = replicate 214 idle @ replicate 1 idle"
    by (rule replicate_add)
  then have "replicate 215 idle = replicate 214 idle @ [idle]" by simp
  then have r45: "Simulate_run (replicate 215 idle) s3 = Some s5"
    using r4 r5 by (simp add: Simulate_run_append)
  have "Simulate_run drop_inputs Simulate_init = Some s5"
    unfolding drop_inputs_def Simulate_run_append r3 by (simp add: r45)
  with w5 show ?thesis by blast
qed
text \<open>
  The floor branch where the step returns. When the tentative Y of a Falling particle
  reaches or exceeds \<open>HEIGHT\<close> and
  the step returns, both velocity components are zero, the Falling tag is removed, and
  the particle rests in the row \<open>y\<close> of column \<open>int(pNextX)\<close> found by walking up from
  row \<open>HEIGHT - 1\<close>: \<open>y\<close> is a row of the domain, the Settlement Grid is clear at \<open>y\<close>
  and set in every row below it, and the step sets it at \<open>y\<close>. The step does return
  when the grids have their size, the old position is inside the domain and the column
  has a clear row. In the scenario (one particle created at \<open>(400, 0)\<close> with velocity
  zero, nothing settled) the particle comes to rest at \<open>y = 799\<close>.
\<close>

theorem floor_settlement:
  "(of_int HEIGHT \<le> tentative_Y e \<and> physics_entity e grid col = Some (e', grid', col') \<longrightarrow>
      velocity e' = \<lparr>vel_X = 0, vel_Y = 0\<rparr> \<and> \<not> Falling e' \<and>
      (\<exists>y. 0 \<le> y \<and> y < HEIGHT \<and>
           position e' = \<lparr>pos_X = clamped_X e, pos_Y = of_int y\<rparr> \<and>
           Grid_IsSet col (to_int (clamped_X e)) y = Some False \<and>
           (\<forall>r. y < r \<and> r < HEIGHT \<longrightarrow> Grid_IsSet col (to_int (clamped_X e)) r = Some True) \<and>
           Grid_Set col (to_int (clamped_X e)) y = Some col'))
   \<and> (of_int HEIGHT \<le> tentative_Y e \<and> length col = nat (WIDTH * HEIGHT) \<and>
      length grid = nat (WIDTH * HEIGHT) \<and> in_domain (position e) \<and>
      0 \<le> r0 \<and> r0 < HEIGHT \<and> Grid_IsSet col (to_int (clamped_X e)) r0 = Some False \<longrightarrow>
      physics_entity e grid col \<noteq> None)
   \<and> (\<exists>s. Simulate_run drop_inputs Simulate_init = Some s \<and>
           world s = [\<lparr>position = \<lparr>pos_X = 400, pos_Y = 799\<rparr>,
                       velocity = \<lparr>vel_X = 0, vel_Y = 0\<rparr>, Falling = False\<rparr>] \<and>
           collision s = NewGrid[639600 := True])"
proof (intro conjI impI)
  assume h: "of_int HEIGHT \<le> tentative_Y e \<and> physics_entity e grid col = Some (e', grid', col')"
  then have fl: "of_int HEIGHT \<le> tentative_Y e"
    and st: "physics_entity e grid col = Some (e', grid', col')" by simp_all
  from physics_entity_floor[OF fl st] obtain y where
    w: "floor_walk col (to_int (clamped_X e)) (HEIGHT - 1) = Some y"
    and s: "Grid_Set col (to_int (clamped_X e)) y = Some col'"
    and e': "e' = \<lparr>position = \<lparr>pos_X = clamped_X e, pos_Y = of_int y\<rparr>,
                   velocity = \<lparr>vel_X = 0, vel_Y = 0\<rparr>, Falling = False\<rparr>" by blast
  from floor_walk_Some[OF w] have yle: "y \<le> HEIGHT - 1"
    and clear: "Grid_IsSet col (to_int (clamped_X e)) y = Some False"
    and below: "\<forall>r. y < r \<and> r \<le> HEIGHT - 1 \<longrightarrow>
                  Grid_IsSet col (to_int (clamped_X e)) r = Some True" by simp_all
  from clear have "0 \<le> to_int (clamped_X e) + WIDTH * y" by (simp add: Grid_IsSet_Some_iff)
  with to_int_clamped_X[of e] have y0: "0 \<le> y" by (simp add: WIDTH_def)
  show "velocity e' = \<lparr>vel_X = 0, vel_Y = 0\<rparr>" using e' by simp
  show "\<not> Falling e'" using e' by simp
  show "\<exists>y. 0 \<le> y \<and> y < HEIGHT \<and>
           position e' = \<lparr>pos_X = clamped_X e, pos_Y = of_int y\<rparr> \<and>
           Grid_IsSet col (to_int (clamped_X e)) y = Some False \<and>
           (\<forall>r. y < r \<and> r < HEIGHT \<longrightarrow> Grid_IsSet col (to_int (clamped_X e)) r = Some True) \<and>
           Grid_Set col (to_int (clamped_X e)) y = Some col'"
    using y0 yle e' clear below s by (intro exI[of _ y]) auto
next
  assume "of_int HEIGHT \<le> tentative_Y e \<and> length col = nat (WIDTH * HEIGHT) \<and>
      length grid = nat (WIDTH * HEIGHT) \<and> in_domain (position e) \<and>
      0 \<le> r0 \<and> r0 < HEIGHT \<and> Grid_IsSet col (to_int (clamped_X e)) r0 = Some False"
  then show "physics_entity e grid col \<noteq> None"
    using physics_entity_floor_total[of e col grid r0] by blast
next
  show "\<exists>s. Simulate_run drop_inputs Simulate_init = Some s \<and>
           world s = [\<lparr>position = \<lparr>pos_X = 400, pos_Y = 799\<rparr>,
                       velocity = \<lparr>vel_X = 0, vel_Y = 0\<rparr>, Falling = False\<rparr>] \<and>
           collision s = NewGrid[639600 := True]"
    by (rule drop_scenario)
qed

theorem floor_settlement_witness:
  "of_int HEIGHT \<le> tentative_Y corner_grain \<and>
   physics_entity corner_grain (NewGrid[639200 := True]) NewGrid =
     Some (\<lparr>position = \<lparr>pos_X = 0, pos_Y = 799\<rparr>,
            velocity = \<lparr>vel_X = 0, vel_Y = 0\<rparr>, Falling = False\<rparr>,
           NewGrid[639200 := True], NewGrid[639200 := True]) \<and>
   length NewGrid = nat (WIDTH * HEIGHT) \<and> length (NewGrid[639200 := True]) = nat (WIDTH * HEIGHT) \<and>
   in_domain (position corner_grain) \<and> (0::int) \<le> 799 \<and> 799 < HEIGHT \<and>
   Grid_IsSet NewGrid (to_int (clamped_X corner_grain)) 799 = Some False \<and>
   physics_entity corner_grain (NewGrid[639200 := True]) NewGrid \<noteq> None \<and>
   (\<exists>y. 0 \<le> y \<and> y < HEIGHT \<and>
        position \<lparr>position = \<lparr>pos_X = 0, pos_Y = 799\<rparr>,
                  velocity = \<lparr>vel_X = 0, vel_Y = 0\<rparr>, Falling = False\<rparr> =
          \<lparr>pos_X = clamped_X corner_grain, pos_Y = of_int y\<rparr> \<and>
        Grid_IsSet NewGrid (to_int (clamped_X corner_grain)) y = Some False \<and>
        Grid_Set NewGrid (to_int (clamped_X corner_grain)) y = Some (NewGrid[639200 := True]))"
proof -
  let ?e = "\<lparr>position = \<lparr>pos_X = 0, pos_Y = 799\<rparr>,
            velocity = \<lparr>vel_X = 0, vel_Y = 0\<rparr>, Falling = False\<rparr>"
  have h1: "of_int HEIGHT \<le> tentative_Y corner_grain"
    by (simp add: var_defs consts_defs corner_grain_def)
  have h2: "physics_entity corner_grain (NewGrid[639200 := True]) NewGrid =
     Some (?e, NewGrid[639200 := True], NewGrid[639200 := True])"
    by (simp add: eval_defs corner_grain_def floor_walk.simps)
  have h3: "length NewGrid = nat (WIDTH * HEIGHT)"
    "length (NewGrid[639200 := True]) = nat (WIDTH * HEIGHT)"
    by (simp_all add: NewGrid_def)
  have h4: "in_domain (position corner_grain)"
    by (simp add: in_domain_def corner_grain_def consts_defs)
  have h5: "(0::int) \<le> 799" "799 < HEIGHT" by (simp_all add: HEIGHT_def)
  have h6: "Grid_IsSet NewGrid (to_int (clamped_X corner_grain)) 799 = Some False"
    by (simp add: var_defs eval_defs corner_grain_def)
  note t = floor_settlement[of corner_grain "NewGrid[639200 := True]" NewGrid ?e
      "NewGrid[639200 := True]" "NewGrid[639200 := True]" 799]
  have c1: "physics_entity corner_grain (NewGrid[639200 := True]) NewGrid \<noteq> None"
    using t h1 h3 h4 h5 h6 by blast
  have c2: "\<exists>y. 0 \<le> y \<and> y < HEIGHT \<and>
        position ?e = \<lparr>pos_X = clamped_X corner_grain, pos_Y = of_int y\<rparr> \<and>
        Grid_IsSet NewGrid (to_int (clamped_X corner_grain)) y = Some False \<and>
        Grid_Set NewGrid (to_int (clamped_X corner_grain)) y = Some (NewGrid[639200 := True])"
    using t h1 h2 by blast
  show ?thesis using h1 h2 h3 h4 h5 h6 c1 c2 by blast
qed

section \<open>Settlement is terminal\<close>

lemma physics_entity_cases:
  assumes "physics_entity e grid col = Some (e', grid', col')"
  shows "(Falling e' \<and> col' = col) \<or>
         (\<not> Falling e' \<and> Grid_Set col (fst (cell_of e')) (snd (cell_of e')) = Some col')"
proof -
  consider (top) "tentative_Y e < 0"
    | (floor) "of_int HEIGHT \<le> tentative_Y e"
    | (mid) "0 \<le> tentative_Y e" "tentative_Y e < of_int HEIGHT" by linarith
  then show ?thesis
  proof cases
    case top
    from physics_entity_top[OF top assms] show ?thesis by simp
  next
    case floor
    from physics_entity_floor[OF floor assms] show ?thesis by (auto simp: cell_of_def)
  next
    case mid
    have "Grid_IsSet col (to_int (clamped_X e)) (to_int (tentative_Y e)) \<noteq> None"
      using assms mid by (auto simp: physics_entity_vars split: Option.bind_splits)
    then obtain b where
      b: "Grid_IsSet col (to_int (clamped_X e)) (to_int (tentative_Y e)) = Some b" by blast
    show ?thesis
    proof (cases b)
      case True
      with b physics_entity_hit[OF mid _ assms] show ?thesis by (auto simp: cell_of_def)
    next
      case False
      with b physics_entity_miss[OF mid _ assms] show ?thesis by simp
    qed
  qed
qed

lemma physics_entity_col_mono:
  assumes "physics_entity e grid col = Some (e', grid', col')"
    "Grid_IsSet col a b = Some True"
  shows "Grid_IsSet col' a b = Some True"
  using physics_entity_cases[OF assms(1)] assms(2) Grid_Set_keeps by blast

lemma physics_entity_marks:
  assumes "physics_entity e grid col = Some (e', grid', col')" "\<not> Falling e'"
  shows "Grid_IsSet col' (fst (cell_of e')) (snd (cell_of e')) = Some True"
  using physics_entity_cases[OF assms(1)] assms(2) Grid_Set_IsSet by blast

lemma physics_loop_props:
  "physics_loop ents w g c = Some (w', g', c') \<Longrightarrow>
   length w' = length w \<and> (\<forall>i. i \<notin> set ents \<longrightarrow> w' ! i = w ! i) \<and>
   (\<forall>a b. Grid_IsSet c a b = Some True \<longrightarrow> Grid_IsSet c' a b = Some True)"
proof (induction ents arbitrary: w g c)
  case Nil
  then show ?case by simp
next
  case (Cons e ents)
  from Cons.prems obtain pt g1 c1 where
    pe: "physics_entity (w ! e) g c = Some (pt, g1, c1)"
    and rest: "physics_loop ents (w[e := pt]) g1 c1 = Some (w', g', c')"
    by (auto split: option.splits)
  from Cons.IH[OF rest] have ih: "length w' = length w"
    "\<forall>i. i \<notin> set ents \<longrightarrow> w' ! i = (w[e := pt]) ! i"
    "\<forall>a b. Grid_IsSet c1 a b = Some True \<longrightarrow> Grid_IsSet c' a b = Some True" by simp_all
  have "w' ! i = w ! i" if "i \<notin> set (e # ents)" for i
    using that ih(2) by simp
  moreover have "Grid_IsSet c' a b = Some True" if "Grid_IsSet c a b = Some True" for a b
    using physics_entity_col_mono[OF pe that] ih(3) by blast
  ultimately show ?case using ih(1) by blast
qed

lemma physics_loop_marked:
  "physics_loop ents w g c = Some (w', g', c') \<Longrightarrow> settled_marked w c \<Longrightarrow> settled_marked w' c'"
proof (induction ents arbitrary: w g c)
  case Nil
  then show ?case by simp
next
  case (Cons e ents)
  from Cons.prems(1) obtain pt g1 c1 where
    pe: "physics_entity (w ! e) g c = Some (pt, g1, c1)"
    and rest: "physics_loop ents (w[e := pt]) g1 c1 = Some (w', g', c')"
    by (auto split: option.splits)
  have "settled_marked (w[e := pt]) c1"
    unfolding settled_marked_def
  proof (intro allI impI)
    fix i assume i: "i < length (w[e := pt])" and nf: "\<not> Falling (w[e := pt] ! i)"
    show "Grid_IsSet c1 (fst (cell_of (w[e := pt] ! i))) (snd (cell_of (w[e := pt] ! i))) = Some True"
    proof (cases "i = e")
      case True
      with i nf have "\<not> Falling pt" "w[e := pt] ! i = pt" by simp_all
      with physics_entity_marks[OF pe] show ?thesis by simp
    next
      case False
      with i nf have "i < length w" "\<not> Falling (w ! i)" "w[e := pt] ! i = w ! i" by simp_all
      with Cons.prems(2) have "Grid_IsSet c (fst (cell_of (w ! i))) (snd (cell_of (w ! i))) = Some True"
        by (simp add: settled_marked_def)
      from physics_entity_col_mono[OF pe this] \<open>w[e := pt] ! i = w ! i\<close> show ?thesis by simp
    qed
  qed
  from Cons.IH[OF rest this] show ?case .
qed

lemma set_QueryAll_Falling:
  "set (QueryAll_Falling w) = {e. e < length w \<and> Falling (w ! e)}"
  by (auto simp: QueryAll_Falling_def)

lemma Simulate_physics_props:
  assumes "Simulate_physics s = Some s'"
  shows "length (world s') = length (world s)"
    and "e < length (world s) \<Longrightarrow> \<not> Falling (world s ! e) \<Longrightarrow> world s' ! e = world s ! e"
    and "Grid_IsSet (collision s) a b = Some True \<Longrightarrow> Grid_IsSet (collision s') a b = Some True"
    and "settled_marked (world s) (collision s) \<Longrightarrow> settled_marked (world s') (collision s')"
proof -
  from assms obtain w' g' c' where
    ap: "physics_loop (QueryAll_Falling (world s)) (world s) (gridLocal s) (collision s) = Some (w', g', c')"
    and s': "s' = s\<lparr>world := w', gridLocal := g', collision := c'\<rparr>"
    by (auto simp: Simulate_physics_def ApplyPhysics_def split: option.splits)
  note p = physics_loop_props[OF ap]
  show "length (world s') = length (world s)" using p s' by simp
  show "world s' ! e = world s ! e" if "e < length (world s)" "\<not> Falling (world s ! e)"
  proof -
    from that have "e \<notin> set (QueryAll_Falling (world s))" by (simp add: set_QueryAll_Falling)
    with p s' show ?thesis by simp
  qed
  show "Grid_IsSet (collision s') a b = Some True" if "Grid_IsSet (collision s) a b = Some True"
    using p that s' by simp
  show "settled_marked (world s') (collision s')" if "settled_marked (world s) (collision s)"
    using physics_loop_marked[OF ap that] s' by simp
qed

lemma Simulate_spawn_props:
  assumes "Simulate_spawn rnd s = Some s'"
  shows "collision s' = collision s"
    and "length (world s) \<le> length (world s')"
    and "e < length (world s) \<Longrightarrow> world s' ! e = world s ! e"
    and "settled_marked (world s) (collision s) \<Longrightarrow> settled_marked (world s') (collision s')"
proof -
  from assms have d: "(world s' = world s \<or> (\<exists>pt. Falling pt \<and> world s' = world s @ [pt])) \<and>
      collision s' = collision s"
    by (auto simp: Simulate_spawn_def SpawnSand_def Let_def
             split: if_splits prod.splits Option.bind_splits)
  show "collision s' = collision s" using d by simp
  show "length (world s) \<le> length (world s')" using d by auto
  show "world s' ! e = world s ! e" if "e < length (world s)"
    using d that by (auto simp: nth_append)
  show "settled_marked (world s') (collision s')" if "settled_marked (world s) (collision s)"
    using d that by (auto simp: settled_marked_def nth_append less_Suc_eq)
qed

lemma Simulate_events_props:
  "world (Simulate_events ev s) = world s" "collision (Simulate_events ev s) = collision s"
  by (simp_all add: Simulate_events_def split: option.splits)

lemma Simulate_tick_props:
  assumes "Simulate_tick inp s = Some s'"
  shows "length (world s) \<le> length (world s')"
    and "e < length (world s) \<Longrightarrow> \<not> Falling (world s ! e) \<Longrightarrow> world s' ! e = world s ! e"
    and "Grid_IsSet (collision s) a b = Some True \<Longrightarrow> Grid_IsSet (collision s') a b = Some True"
    and "settled_marked (world s) (collision s) \<Longrightarrow> settled_marked (world s') (collision s')"
proof -
  from assms obtain s1 where sp: "Simulate_spawn (rands inp) (Simulate_events (event inp) s) = Some s1"
    and ph: "Simulate_physics s1 = Some s'"
    by (auto simp: Simulate_tick_def split: option.splits)
  note a = Simulate_spawn_props[OF sp] and b = Simulate_physics_props[OF ph]
  show "length (world s) \<le> length (world s')"
    using a(2) b(1) by (simp add: Simulate_events_props)
  show "world s' ! e = world s ! e" if "e < length (world s)" "\<not> Falling (world s ! e)"
  proof -
    have 1: "world s1 ! e = world s ! e" using a(3)[of e] that by (simp add: Simulate_events_props)
    have 2: "e < length (world s1)" using a(2) that by (simp add: Simulate_events_props)
    from b(2)[OF 2] 1 that show ?thesis by simp
  qed
  show "Grid_IsSet (collision s') a b = Some True" if "Grid_IsSet (collision s) a b = Some True"
    using a(1) b(3)[of a b] that by (simp add: Simulate_events_props)
  show "settled_marked (world s') (collision s')" if "settled_marked (world s) (collision s)"
    using a(4) b(4) that by (simp add: Simulate_events_props)
qed

lemma Simulate_run_props:
  "Simulate_run inps s = Some s' \<Longrightarrow>
   length (world s) \<le> length (world s') \<and>
   (\<forall>e. e < length (world s) \<and> \<not> Falling (world s ! e) \<longrightarrow> world s' ! e = world s ! e) \<and>
   (\<forall>a b. Grid_IsSet (collision s) a b = Some True \<longrightarrow> Grid_IsSet (collision s') a b = Some True) \<and>
   (settled_marked (world s) (collision s) \<longrightarrow> settled_marked (world s') (collision s'))"
proof (induction inps arbitrary: s)
  case Nil
  then show ?case by simp
next
  case (Cons i inps)
  from Cons.prems obtain s1 where t: "Simulate_tick i s = Some s1"
    and r: "Simulate_run inps s1 = Some s'" by (auto split: option.splits)
  note a = Simulate_tick_props[OF t] and b = Cons.IH[OF r]
  have "world s' ! e = world s ! e" if "e < length (world s)" "\<not> Falling (world s ! e)" for e
  proof -
    have "world s1 ! e = world s ! e" "e < length (world s1)" using a(1) a(2)[OF that] that by simp_all
    with b that show ?thesis by simp
  qed
  moreover have "Grid_IsSet (collision s') x y = Some True"
    if "Grid_IsSet (collision s) x y = Some True" for x y
    using a(3)[OF that] b by blast
  moreover have "settled_marked (world s') (collision s')" if "settled_marked (world s) (collision s)"
    using a(4)[OF that] b by blast
  moreover have "length (world s) \<le> length (world s')" using a(1) b by simp
  ultimately show ?case by blast
qed

lemma settled_marked_init: "settled_marked (world Simulate_init) (collision Simulate_init)"
  by (simp add: settled_marked_def Simulate_init_def)

text \<open>
  Claim C6. Over any number of cycles of the loop, a particle without the Falling tag
  keeps its position and stays without the tag, and a cell that is set in the Settlement
  Grid stays set (no operation of the cycle clears a cell of that grid). In every state
  reached from the initial one, the cell of a particle without the tag is set in the
  Settlement Grid; with the first two statements it stays set and stays the particle's
  cell from then on.
\<close>

theorem settlement_is_terminal:
  "(Simulate_run inps s = Some s' \<and> e < length (world s) \<and> \<not> Falling (world s ! e) \<longrightarrow>
      e < length (world s') \<and> \<not> Falling (world s' ! e) \<and>
      position (world s' ! e) = position (world s ! e))
   \<and> (Simulate_run inps s = Some s' \<and> Grid_IsSet (collision s) a b = Some True \<longrightarrow>
      Grid_IsSet (collision s') a b = Some True)
   \<and> (Simulate_run inps0 Simulate_init = Some s \<and> e < length (world s) \<and> \<not> Falling (world s ! e) \<longrightarrow>
      Grid_IsSet (collision s) (fst (cell_of (world s ! e))) (snd (cell_of (world s ! e))) = Some True)"
proof (intro conjI impI)
  assume h: "Simulate_run inps s = Some s' \<and> e < length (world s) \<and> \<not> Falling (world s ! e)"
  then have r: "Simulate_run inps s = Some s'" by simp
  from Simulate_run_props[OF r] h
  show "e < length (world s')" "\<not> Falling (world s' ! e)"
    "position (world s' ! e) = position (world s ! e)" by auto
next
  assume "Simulate_run inps s = Some s' \<and> Grid_IsSet (collision s) a b = Some True"
  then show "Grid_IsSet (collision s') a b = Some True"
    using Simulate_run_props[of inps s s'] by blast
next
  assume h: "Simulate_run inps0 Simulate_init = Some s \<and> e < length (world s) \<and> \<not> Falling (world s ! e)"
  then have "settled_marked (world s) (collision s)"
    using Simulate_run_props[of inps0 Simulate_init s] settled_marked_init by blast
  with h show "Grid_IsSet (collision s) (fst (cell_of (world s ! e))) (snd (cell_of (world s ! e))) = Some True"
    by (simp add: settled_marked_def)
qed

theorem settlement_is_terminal_witness:
  "Simulate_run [ev_at (5 / 2) (1583 / 2) DirNone, ev_at (1 / 2) (1599 / 2) DirPress] Simulate_init =
     Some corner_state \<and>
   Simulate_run [idle] corner_state = Some corner_state2 \<and>
   (0::nat) < length (world corner_state) \<and> \<not> Falling (world corner_state ! 0) \<and>
   Grid_IsSet (collision corner_state) 0 799 = Some True \<and>
   cell_of (world corner_state ! 0) = (0, 799) \<and>
   0 < length (world corner_state2) \<and> \<not> Falling (world corner_state2 ! 0) \<and>
   position (world corner_state2 ! 0) = position (world corner_state ! 0) \<and>
   Grid_IsSet (collision corner_state2) 0 799 = Some True"
proof -
  have h1: "Simulate_run [ev_at (5 / 2) (1583 / 2) DirNone, ev_at (1 / 2) (1599 / 2) DirPress]
      Simulate_init = Some corner_state"
    by (simp add: eval_defs floor_walk.simps corner_state_def)
  have h2: "Simulate_run [idle] corner_state = Some corner_state2"
    by (simp add: eval_defs floor_walk.simps corner_state_def corner_state2_def)
  have h3: "(0::nat) < length (world corner_state)" "\<not> Falling (world corner_state ! 0)"
    by (simp_all add: corner_state_def)
  have h4: "cell_of (world corner_state ! 0) = (0, 799)"
    by (simp add: corner_state_def cell_of_def to_int_def)
  have c3: "Grid_IsSet (collision corner_state) 0 799 = Some True"
    using settlement_is_terminal[where ?inps0.0 = "[ev_at (5 / 2) (1583 / 2) DirNone,
        ev_at (1 / 2) (1599 / 2) DirPress]" and s = corner_state and e = 0] h1 h3 h4
    by simp
  have c1: "0 < length (world corner_state2) \<and> \<not> Falling (world corner_state2 ! 0) \<and>
      position (world corner_state2 ! 0) = position (world corner_state ! 0)"
    using settlement_is_terminal[where inps = "[idle]" and s = corner_state
        and s' = corner_state2 and e = 0] h2 h3
    by blast
  have c2: "Grid_IsSet (collision corner_state2) 0 799 = Some True"
    using settlement_is_terminal[where inps = "[idle]" and s = corner_state
        and s' = corner_state2 and a = 0 and b = 799] h2 c3
    by blast
  show ?thesis using h1 h2 h3 h4 c1 c2 c3 by blast
qed

section \<open>The floor walk in a full column\<close>

lemma floor_walk_skip:
  assumes "y \<le> y0" "\<forall>r. y < r \<and> r \<le> y0 \<longrightarrow> Grid_IsSet col x r = Some True"
  shows "floor_walk col x y0 = floor_walk col x y"
  using assms
proof (induction y0 rule: int_ge_induct)
  case base
  then show ?case by simp
next
  case (step i)
  have "Grid_IsSet col x (i + 1) = Some True" using step.hyps step.prems by simp
  then have "floor_walk col x (i + 1) = floor_walk col x i"
    by (simp add: floor_walk.simps[of col x "i + 1"])
  moreover have "floor_walk col x i = floor_walk col x y"
    using step.IH step.prems by simp
  ultimately show ?case by simp
qed

lemma pile_walk:
  assumes len: "length c = nat (WIDTH * HEIGHT)"
    and col: "\<forall>r. 0 \<le> r \<and> r < HEIGHT \<longrightarrow> (c ! nat (3 + WIDTH * r) \<longleftrightarrow> HEIGHT - int k \<le> r)"
    and k: "k \<le> 800"
  shows "floor_walk c 3 (HEIGHT - 1) = (if k < 800 then Some (HEIGHT - 1 - int k) else None)"
proof -
  have set: "Grid_IsSet c 3 r = Some True" if "HEIGHT - 1 - int k < r" "r \<le> HEIGHT - 1" for r
  proof -
    have r: "0 \<le> r" "r < HEIGHT" using that k by (simp_all add: HEIGHT_def)
    from Grid_IsSet_in_range[OF len _ _ r] col r that show ?thesis by (simp add: WIDTH_def)
  qed
  have "floor_walk c 3 (HEIGHT - 1) = floor_walk c 3 (HEIGHT - 1 - int k)"
    by (rule floor_walk_skip) (use set in auto)
  also have "\<dots> = (if k < 800 then Some (HEIGHT - 1 - int k) else None)"
  proof (cases "k < 800")
    case True
    define R where "R = HEIGHT - 1 - int k"
    have r: "0 \<le> R" "R < HEIGHT" using True by (simp_all add: R_def HEIGHT_def)
    have "\<not> HEIGHT - int k \<le> R" by (simp add: R_def)
    with col r have "\<not> c ! nat (3 + WIDTH * R)" by blast
    moreover have "Grid_IsSet c 3 R = Some (c ! nat (3 + WIDTH * R))"
      using Grid_IsSet_in_range[OF len, of 3 R] r by (simp add: WIDTH_def)
    ultimately have "Grid_IsSet c 3 R = Some False" by simp
    then show ?thesis using True by (simp add: floor_walk.simps[of c 3 R] R_def[symmetric])
  next
    case False
    with k have "k = 800" by simp
    then have "Grid_IsSet c 3 (HEIGHT - 1 - int k) = None"
      by (simp add: Grid_IsSet_def consts_defs)
    then show ?thesis using False by (simp add: floor_walk.simps[of c 3 "HEIGHT - 1 - int k"])
  qed
  finally show ?thesis .
qed

lemma QueryAll_Falling_new:
  assumes "list_all (\<lambda>e. \<not> Falling e) w" "Falling pt"
  shows "QueryAll_Falling (w @ [pt]) = [length w]"
proof -
  have "filter (\<lambda>e. Falling ((w @ [pt]) ! e)) [0..<length w] = []"
    using assms(1) by (auto simp: filter_empty_conv nth_append list_all_length)
  then show ?thesis using assms(2) by (simp add: QueryAll_Falling_def)
qed

lemma pile_grain_Falling: "Falling (pile_grain rnd)"
  by (simp add: pile_grain_def split: prod.splits)

lemma pile_grain_pos:
  "to_int (pos_X (position (pile_grain rnd))) = 2"
  "to_int (pos_Y (position (pile_grain rnd))) = 799"
  by (simp_all add: pile_grain_def to_int_def split: prod.splits)

lemma pile_grain_floor:
  assumes "rands_ok rnd"
  shows "of_int HEIGHT \<le> tentative_Y (pile_grain rnd)"
proof -
  obtain r1 r2 r3 r4 where rnd: "rnd = (r1, r2, r3, r4)" by (cases rnd) auto
  from assms have b: "0 \<le> r3" "r4 < 1" by (simp_all add: rands_ok_def rnd)
  have "32 \<le> gravity_Y (pile_grain rnd)"
    using b by (simp add: gravity_Y_def pile_grain_def rnd consts_defs)
  then show ?thesis
    by (simp add: tentative_Y_def pile_grain_def rnd consts_defs)
qed

lemma pile_grain_column:
  assumes "rands_ok rnd"
  shows "to_int (clamped_X (pile_grain rnd)) = 3"
proof -
  obtain r1 r2 r3 r4 where rnd: "rnd = (r1, r2, r3, r4)" by (cases rnd) auto
  from assms have b: "0 \<le> r1" "r1 < 1" "0 \<le> r2" "r2 < 1" by (simp_all add: rands_ok_def rnd)
  have tx: "tentative_X (pile_grain rnd) = 7 / 2 + (r1 - r2) / 2"
    by (simp add: tentative_X_def pile_grain_def rnd consts_defs field_simps)
  have "3 \<le> tentative_X (pile_grain rnd)" using b unfolding tx by (simp add: field_simps)
  moreover have "tentative_X (pile_grain rnd) < 4" using b unfolding tx by (simp add: field_simps)
  ultimately have rng: "3 \<le> tentative_X (pile_grain rnd)" "tentative_X (pile_grain rnd) < 4"
    by simp_all
  then have "clamped_X (pile_grain rnd) = tentative_X (pile_grain rnd)"
    by (simp add: clamped_X_def WIDTH_def)
  moreover have "\<lfloor>tentative_X (pile_grain rnd)\<rfloor> = 3"
    using rng by (simp add: floor_eq_iff)
  ultimately show ?thesis using rng by (simp add: to_int_def)
qed

lemma pile_spawn:
  assumes "column_pile k s" "k \<le> 800"
  shows "Simulate_spawn rnd s =
     Some (s\<lparr>world := world s @ [pile_grain rnd], sandCount := int k + 1,
             source := (source s)\<lparr>src_v := velocity (pile_grain rnd)\<rparr>,
             gridLocal := (gridLocal s)[639202 := True]\<rparr>)"
proof -
  obtain r1 r2 r3 r4 where rnd: "rnd = (r1, r2, r3, r4)" by (cases rnd) auto
  from assms have prev: "src_prev (source s) = \<lparr>pos_X = 1 / 2, pos_Y = 1583 / 2\<rparr>"
    and p: "src_p (source s) = \<lparr>pos_X = 5 / 2, pos_Y = 1599 / 2\<rparr>"
    and act: "isActive (source s)" and cnt: "sandCount s = int k"
    and len: "length (gridLocal s) = nat (WIDTH * HEIGHT)" and free: "\<not> gridLocal s ! 1602"
    by (simp_all add: column_pile_def)
  have occ: "Grid_IsSet (gridLocal s) 2 2 = Some False"
    using Grid_IsSet_in_range[OF len, of 2 2] free by (simp add: consts_defs)
  have st: "Grid_Set (gridLocal s) 2 799 = Some ((gridLocal s)[639202 := True])"
    using Grid_Set_in_range[OF len, of 2 799] by (simp add: consts_defs)
  have ti: "to_int (5 / 2) = 2" "to_int (1599 / 2) = 799" by (simp_all add: to_int_def)
  have sp: "SpawnSand (world s) (source s) rnd =
      (world s @ [pile_grain rnd], (source s)\<lparr>src_v := velocity (pile_grain rnd)\<rparr>)"
    by (simp add: SpawnSand_def pile_grain_def rnd prev p consts_defs Let_def field_simps)
  have lt: "sandCount s < MAXSAND" using cnt assms(2) by (simp add: consts_defs)
  show ?thesis
    using occ st lt cnt
    by (simp add: Simulate_spawn_def act p ti sp)
qed

lemma pile_physics_entity:
  assumes lg: "length g = nat (WIDTH * HEIGHT)" and lc: "length c = nat (WIDTH * HEIGHT)"
    and col: "\<forall>r. 0 \<le> r \<and> r < HEIGHT \<longrightarrow> (c ! nat (3 + WIDTH * r) \<longleftrightarrow> HEIGHT - int k \<le> r)"
    and k: "k \<le> 800" and ok: "rands_ok rnd"
  shows "physics_entity (pile_grain rnd) g c =
     (if k < 800 then
        Some (\<lparr>position = \<lparr>pos_X = clamped_X (pile_grain rnd),
                              pos_Y = of_int (HEIGHT - 1 - int k)\<rparr>,
                velocity = \<lparr>vel_X = 0, vel_Y = 0\<rparr>, Falling = False\<rparr>,
              g[639202 := False, nat (3 + WIDTH * (HEIGHT - 1 - int k)) := True],
              c[nat (3 + WIDTH * (HEIGHT - 1 - int k)) := True])
      else None)"
proof -
  have fl: "of_int HEIGHT \<le> tentative_Y (pile_grain rnd)" using pile_grain_floor[OF ok] .
  then have nt: "\<not> tentative_Y (pile_grain rnd) < 0" by (simp add: HEIGHT_def)
  note w = pile_walk[OF lc col k]
  note x3 = pile_grain_column[OF ok]
  show ?thesis
  proof (cases "k < 800")
    case True
    define R where "R = HEIGHT - 1 - int k"
    have r: "0 \<le> R" "R < HEIGHT" using True by (simp_all add: R_def HEIGHT_def)
    have s1: "Grid_Set c 3 R = Some (c[nat (3 + WIDTH * R) := True])"
      using Grid_Set_in_range[OF lc, of 3 R] r by (simp add: WIDTH_def)
    have c1: "Grid_Clear g 2 799 = Some (g[639202 := False])"
      using Grid_Clear_in_range[OF lg, of 2 799] by (simp add: consts_defs)
    have s2: "Grid_Set (g[639202 := False]) 3 R =
        Some (g[639202 := False, nat (3 + WIDTH * R) := True])"
      using Grid_Set_in_range[of "g[639202 := False]" 3 R] lg r by (simp add: WIDTH_def)
    show ?thesis
      using True fl nt w s1 c1 s2
      by (simp add: physics_entity_vars pile_grain_pos x3 R_def[symmetric])
  next
    case False
    then show ?thesis using fl nt w by (simp add: physics_entity_vars x3)
  qed
qed

lemma pile_step:
  assumes "column_pile k s" "k < 800" "rands_ok rnd"
  shows "\<exists>s'. (case Simulate_spawn rnd s of None \<Rightarrow> None | Some s1 \<Rightarrow> Simulate_physics s1) = Some s' \<and>
              column_pile (Suc k) s'"
proof -
  from assms(1) have nf: "list_all (\<lambda>e. \<not> Falling e) (world s)"
    and lg: "length (gridLocal s) = nat (WIDTH * HEIGHT)"
    and lc: "length (collision s) = nat (WIDTH * HEIGHT)"
    and free: "\<not> gridLocal s ! 1602"
    and src: "src_prev (source s) = \<lparr>pos_X = 1 / 2, pos_Y = 1583 / 2\<rparr>"
      "src_p (source s) = \<lparr>pos_X = 5 / 2, pos_Y = 1599 / 2\<rparr>" "isActive (source s)"
    and col: "\<forall>r. 0 \<le> r \<and> r < HEIGHT \<longrightarrow>
        (collision s ! nat (3 + WIDTH * r) \<longleftrightarrow> HEIGHT - int k \<le> r)"
    by (simp_all add: column_pile_def)
  define R where "R = HEIGHT - 1 - int k"
  define rest where "rest = \<lparr>position = \<lparr>pos_X = clamped_X (pile_grain rnd), pos_Y = of_int R\<rparr>,
                velocity = \<lparr>vel_X = 0, vel_Y = 0\<rparr>, Falling = False\<rparr>"
  define s' where "s' = s\<lparr>world := (world s @ [pile_grain rnd])[length (world s) := rest],
      sandCount := int k + 1,
      source := (source s)\<lparr>src_v := velocity (pile_grain rnd)\<rparr>,
      gridLocal := (gridLocal s)[639202 := True, 639202 := False, nat (3 + WIDTH * R) := True],
      collision := (collision s)[nat (3 + WIDTH * R) := True]\<rparr>"
  have k': "k \<le> 800" using assms(2) by simp
  have r: "0 \<le> R" "R < HEIGHT" using assms(2) by (simp_all add: R_def HEIGHT_def)
  have sp: "Simulate_spawn rnd s =
     Some (s\<lparr>world := world s @ [pile_grain rnd], sandCount := int k + 1,
             source := (source s)\<lparr>src_v := velocity (pile_grain rnd)\<rparr>,
             gridLocal := (gridLocal s)[639202 := True]\<rparr>)"
    using pile_spawn[OF assms(1) k'] .
  have q: "QueryAll_Falling (world s @ [pile_grain rnd]) = [length (world s)]"
    using QueryAll_Falling_new[OF nf pile_grain_Falling] .
  have pe: "physics_entity (pile_grain rnd) ((gridLocal s)[639202 := True]) (collision s) =
      Some (rest, (gridLocal s)[639202 := True, 639202 := False, nat (3 + WIDTH * R) := True],
            (collision s)[nat (3 + WIDTH * R) := True])"
    using pile_physics_entity[OF _ lc col k' assms(3), of "(gridLocal s)[639202 := True]"] lg assms(2)
    by (simp add: R_def rest_def)
  have tick: "(case Simulate_spawn rnd s of None \<Rightarrow> None | Some s1 \<Rightarrow> Simulate_physics s1) = Some s'"
    using q pe by (simp add: sp Simulate_physics_def ApplyPhysics_def s'_def)
  have w': "list_all (\<lambda>e. \<not> Falling e) (world s')"
    using nf by (simp add: s'_def rest_def)
  have g': "\<not> gridLocal s' ! 1602"
  proof -
    have "3 + 800 * R \<noteq> 1602"
    proof
      assume "3 + 800 * R = 1602"
      then have "(3 + 800 * R) mod 800 = 1602 mod 800" by (rule arg_cong)
      then show False by simp
    qed
    then have "nat (3 + WIDTH * R) \<noteq> 1602" using r by (simp add: WIDTH_def nat_eq_iff)
    then show ?thesis using free by (simp add: s'_def)
  qed
  have c': "collision s' ! nat (3 + WIDTH * r') \<longleftrightarrow> HEIGHT - int (Suc k) \<le> r'"
    if "0 \<le> r'" "r' < HEIGHT" for r'
  proof (cases "r' = R")
    case True
    have "nat (3 + WIDTH * R) < length (collision s)"
      using r lc by (simp add: consts_defs)
    then show ?thesis using True by (simp add: s'_def R_def)
  next
    case False
    then have "nat (3 + WIDTH * R) \<noteq> nat (3 + WIDTH * r')"
      using r that by (simp add: WIDTH_def)
    then have "collision s' ! nat (3 + WIDTH * r') = collision s ! nat (3 + WIDTH * r')"
      by (simp add: s'_def)
    also have "\<dots> \<longleftrightarrow> HEIGHT - int k \<le> r'" using col that by blast
    also have "\<dots> \<longleftrightarrow> HEIGHT - int (Suc k) \<le> r'" using False by (auto simp: R_def)
    finally show ?thesis .
  qed
  have "column_pile (Suc k) s'"
    unfolding column_pile_def
    using w' g' c' src lg lc by (simp add: s'_def)
  with tick show ?thesis by blast
qed

lemma pile_step_panic:
  assumes "column_pile 800 s" "rands_ok rnd"
  shows "(case Simulate_spawn rnd s of None \<Rightarrow> None | Some s1 \<Rightarrow> Simulate_physics s1) = None"
proof -
  from assms have nf: "list_all (\<lambda>e. \<not> Falling e) (world s)"
    and lg: "length (gridLocal s) = nat (WIDTH * HEIGHT)"
    and lc: "length (collision s) = nat (WIDTH * HEIGHT)"
    and col: "\<forall>r. 0 \<le> r \<and> r < HEIGHT \<longrightarrow>
        (collision s ! nat (3 + WIDTH * r) \<longleftrightarrow> HEIGHT - int 800 \<le> r)"
    by (simp_all add: column_pile_def)
  have sp: "Simulate_spawn rnd s =
     Some (s\<lparr>world := world s @ [pile_grain rnd], sandCount := int 800 + 1,
             source := (source s)\<lparr>src_v := velocity (pile_grain rnd)\<rparr>,
             gridLocal := (gridLocal s)[639202 := True]\<rparr>)"
    using pile_spawn[OF assms(1)] by simp
  have q: "QueryAll_Falling (world s @ [pile_grain rnd]) = [length (world s)]"
    using QueryAll_Falling_new[OF nf pile_grain_Falling] .
  have pe: "physics_entity (pile_grain rnd) ((gridLocal s)[639202 := True]) (collision s) = None"
    using pile_physics_entity[OF _ lc col _ assms(2), of "(gridLocal s)[639202 := True]"] lg by simp
  show ?thesis
    using q pe by (simp add: sp Simulate_physics_def ApplyPhysics_def)
qed

lemma held_tick:
  "Simulate_tick (held rnd) s =
     (case Simulate_spawn rnd s of None \<Rightarrow> None | Some s1 \<Rightarrow> Simulate_physics s1)"
  by (simp add: Simulate_tick_def held_def Simulate_events_def)

lemma pile_run:
  "column_pile k s \<Longrightarrow> list_all rands_ok rnds \<Longrightarrow> k + length rnds \<le> 800 \<Longrightarrow>
   \<exists>s'. Simulate_run (map held rnds) s = Some s' \<and> column_pile (k + length rnds) s'"
proof (induction rnds arbitrary: k s)
  case Nil
  then show ?case by simp
next
  case (Cons rnd rnds)
  from Cons.prems have k: "k < 800" and ok: "rands_ok rnd" and rest: "list_all rands_ok rnds"
    by simp_all
  from pile_step[OF Cons.prems(1) k ok] obtain s1 where
    t: "Simulate_tick (held rnd) s = Some s1" and p: "column_pile (Suc k) s1"
    by (auto simp: held_tick)
  from Cons.IH[OF p rest] Cons.prems(3) obtain s' where
    "Simulate_run (map held rnds) s1 = Some s'" "column_pile (Suc k + length rnds) s'" by auto
  with t show ?case by simp
qed

lemma pile_start:
  assumes "rands_ok rnd"
  shows "\<exists>s. Simulate_run (pile_inputs rnd []) Simulate_init = Some s \<and> column_pile 1 s"
proof -
  define s0 where "s0 = Simulate_events
      (Some \<lparr>ev_X = 5 / 2, ev_Y = 1599 / 2, ev_Direction = DirPress\<rparr>)
      (Simulate_init\<lparr>source := (source Simulate_init)\<lparr>src_p := \<lparr>pos_X = 1 / 2, pos_Y = 1583 / 2\<rparr>\<rparr>\<rparr>)"
  have mv: "Simulate_tick (ev_at (1 / 2) (1583 / 2) DirNone) Simulate_init =
      Some (Simulate_init\<lparr>source := (source Simulate_init)\<lparr>src_p := \<lparr>pos_X = 1 / 2, pos_Y = 1583 / 2\<rparr>\<rparr>\<rparr>)"
    by (simp add: eval_defs)
  have c: "replicate 640000 False ! nat (3 + 800 * r) = False" if "0 \<le> r" "r < 800" for r :: int
  proof -
    have "nat (3 + 800 * r) < 640000" using that by simp
    then show ?thesis by simp
  qed
  have p0: "column_pile 0 s0"
    unfolding column_pile_def
    by (simp add: s0_def Simulate_events_def handle_Event_def Simulate_init_def consts_defs
          NewGrid_def c)
  from pile_step[OF p0 _ assms] obtain s1 where
    st: "(case Simulate_spawn rnd s0 of None \<Rightarrow> None | Some s1 \<Rightarrow> Simulate_physics s1) = Some s1"
    and p1: "column_pile 1 s1" by auto
  have "Simulate_tick \<lparr>event = Some \<lparr>ev_X = 5 / 2, ev_Y = 1599 / 2, ev_Direction = DirPress\<rparr>,
                       rands = rnd\<rparr>
      (Simulate_init\<lparr>source := (source Simulate_init)\<lparr>src_p := \<lparr>pos_X = 1 / 2, pos_Y = 1583 / 2\<rparr>\<rparr>\<rparr>) =
      Some s1"
    using st by (simp add: Simulate_tick_def s0_def)
  then have "Simulate_run (pile_inputs rnd []) Simulate_init = Some s1"
    by (simp add: pile_inputs_def mv)
  with p1 show ?thesis by blast
qed

text \<open>
  Claim C10. With the pointer held at \<open>(2.5, 799.5)\<close> after a move from
  \<open>(0.5, 791.5)\<close>, every cycle creates a particle that reaches the floor in column 3
  on its first tick, whatever the random draws are. After the press cycle and 799 further
  cycles the loop is in a state in which no row of column 3 of the Settlement Grid is
  clear; in the next cycle the walk of the floor branch runs from row 799 down to row
  \<open>-1\<close>, where the index \<open>3 - 800\<close> is out of range, and the cycle ends in the
  panic.
\<close>

theorem full_column_walk_panics:
  "rands_ok rnd \<and> list_all rands_ok rnds \<and> length rnds = 800 \<longrightarrow>
   (\<exists>s. Simulate_run (pile_inputs rnd (take 799 rnds)) Simulate_init = Some s \<and>
        \<not> (\<exists>r. 0 \<le> r \<and> r < HEIGHT \<and> Grid_IsSet (collision s) 3 r \<noteq> Some True)) \<and>
   Simulate_run (pile_inputs rnd rnds) Simulate_init = None"
proof (intro impI, elim conjE)
  assume ok: "rands_ok rnd" and oks: "list_all rands_ok rnds" and len: "length rnds = 800"
  from pile_start[OF ok] obtain s1 where
    r1: "Simulate_run (pile_inputs rnd []) Simulate_init = Some s1"
    and p1: "column_pile 1 s1" by blast
  have oks': "list_all rands_ok (take 799 rnds)"
    using oks by (auto simp: list_all_iff dest: in_set_takeD)
  have l': "length (take 799 rnds) = 799" using len by simp
  from pile_run[OF p1 oks'] l' obtain s where
    r2: "Simulate_run (map held (take 799 rnds)) s1 = Some s" and p: "column_pile 800 s" by auto
  have split: "pile_inputs rnd xs = pile_inputs rnd [] @ map held xs" for xs
    by (simp add: pile_inputs_def)
  have r: "Simulate_run (pile_inputs rnd (take 799 rnds)) Simulate_init = Some s"
    by (simp add: split[of "take 799 rnds"] Simulate_run_append r1 r2)
  from p have lc: "length (collision s) = nat (WIDTH * HEIGHT)"
    and col: "\<forall>r. 0 \<le> r \<and> r < HEIGHT \<longrightarrow>
        (collision s ! nat (3 + WIDTH * r) \<longleftrightarrow> HEIGHT - int 800 \<le> r)"
    by (simp_all add: column_pile_def)
  have "Grid_IsSet (collision s) 3 r = Some True" if "0 \<le> r" "r < HEIGHT" for r
  proof -
    from col that have "collision s ! nat (3 + WIDTH * r)" by (simp add: HEIGHT_def)
    with Grid_IsSet_in_range[OF lc, of 3 r] that show ?thesis by (simp add: WIDTH_def)
  qed
  then have full: "\<not> (\<exists>r. 0 \<le> r \<and> r < HEIGHT \<and> Grid_IsSet (collision s) 3 r \<noteq> Some True)"
    by blast
  have "take (Suc 799) rnds = take 799 rnds @ [rnds ! 799]"
    using len by (intro take_Suc_conv_app_nth) simp
  moreover have "take (Suc 799) rnds = rnds" using len by simp
  ultimately have eq: "rnds = take 799 rnds @ [rnds ! 799]" by simp
  then have "map held rnds = map held (take 799 rnds @ [rnds ! 799])" by (rule arg_cong)
  then have "pile_inputs rnd rnds = pile_inputs rnd (take 799 rnds) @ [held (rnds ! 799)]"
    by (simp add: pile_inputs_def)
  moreover have "rands_ok (rnds ! 799)" using oks len by (simp add: list_all_length)
  ultimately have "Simulate_run (pile_inputs rnd rnds) Simulate_init = None"
    using r pile_step_panic[OF p] by (simp add: Simulate_run_append held_tick)
  with r full show "(\<exists>s. Simulate_run (pile_inputs rnd (take 799 rnds)) Simulate_init = Some s \<and>
        \<not> (\<exists>r. 0 \<le> r \<and> r < HEIGHT \<and> Grid_IsSet (collision s) 3 r \<noteq> Some True)) \<and>
   Simulate_run (pile_inputs rnd rnds) Simulate_init = None" by blast
qed

theorem full_column_walk_panics_witness:
  "rands_ok (0, 0, 0, 0) \<and> list_all rands_ok (replicate 800 (0, 0, 0, 0)) \<and>
   length (replicate 800 (0 :: real, 0 :: real, 0 :: real, 0 :: real)) = 800 \<and>
   Simulate_run (pile_inputs (0, 0, 0, 0) (replicate 800 (0, 0, 0, 0))) Simulate_init = None"
proof -
  have h1: "rands_ok (0, 0, 0, 0)" by (simp add: rands_ok_def)
  have h2: "list_all rands_ok (replicate 800 (0, 0, 0, 0))" using h1 by (simp add: list_all_iff)
  have h3: "length (replicate 800 (0 :: real, 0 :: real, 0 :: real, 0 :: real)) = 800" by simp
  have "Simulate_run (pile_inputs (0, 0, 0, 0) (replicate 800 (0, 0, 0, 0))) Simulate_init = None"
    using full_column_walk_panics[of "(0, 0, 0, 0)" "replicate 800 (0, 0, 0, 0)"] h1 h2 h3
    by blast
  then show ?thesis using h1 h2 h3 by blast
qed

section \<open>The floor branch in a full column\<close>

lemma pile_reach:
  assumes ok: "rands_ok rnd" and oks: "list_all rands_ok rnds" and len: "length rnds = 799"
  shows "\<exists>s. Simulate_run (pile_inputs rnd rnds) Simulate_init = Some s \<and> column_pile 800 s"
proof -
  from pile_start[OF ok] obtain s1 where
    r1: "Simulate_run (pile_inputs rnd []) Simulate_init = Some s1"
    and p1: "column_pile 1 s1" by blast
  from pile_run[OF p1 oks] len obtain s where
    r2: "Simulate_run (map held rnds) s1 = Some s" and p: "column_pile 800 s" by auto
  have "pile_inputs rnd rnds = pile_inputs rnd [] @ map held rnds"
    by (simp add: pile_inputs_def)
  then have "Simulate_run (pile_inputs rnd rnds) Simulate_init = Some s"
    by (simp add: Simulate_run_append r1 r2)
  with p show ?thesis by blast
qed

text \<open>
  Claim C3. Where the column of the particle has a clear row, the floor branch does what
  the claim says (\<open>floor_settlement\<close>, and the scenario of the particle created at
  \<open>(400, 0)\<close>, which comes to rest at \<open>y = 799\<close>). It does not do it for every
  Falling particle whose tentative Y reaches \<open>HEIGHT\<close>. After the press cycle and 799
  further cycles of the pile scenario (all draws \<open>0\<close>) no row of column 3 of the
  Settlement Grid is clear. The next cycle creates a Falling particle whose tentative Y is
  \<open>803.5\<close> and whose column is 3; the walk from row 799 finds every cell settled and
  leaves the grid at row \<open>-1\<close>, so the step ends in the panic: no velocity is zeroed,
  no cell is marked and the tag is not removed.
\<close>

theorem floor_branch_fails_in_full_column:
  "\<exists>s. Simulate_run (pile_inputs (0, 0, 0, 0) (replicate 799 (0, 0, 0, 0))) Simulate_init = Some s \<and>
       \<not> (\<exists>r. 0 \<le> r \<and> r < HEIGHT \<and> Grid_IsSet (collision s) 3 r \<noteq> Some True) \<and>
       map_option world (Simulate_spawn (0, 0, 0, 0) s) = Some (world s @ [pile_grain (0, 0, 0, 0)]) \<and>
       Falling (pile_grain (0, 0, 0, 0)) \<and>
       tentative_Y (pile_grain (0, 0, 0, 0)) = 1607 / 2 \<and>
       of_int HEIGHT \<le> tentative_Y (pile_grain (0, 0, 0, 0)) \<and>
       to_int (clamped_X (pile_grain (0, 0, 0, 0))) = 3 \<and>
       (case Simulate_spawn (0, 0, 0, 0) s of
          None \<Rightarrow> None
        | Some s1 \<Rightarrow> physics_entity (pile_grain (0, 0, 0, 0)) (gridLocal s1) (collision s1)) = None \<and>
       floor_walk (collision s) 3 (HEIGHT - 1) = None \<and>
       Simulate_tick (held (0, 0, 0, 0)) s = None"
proof -
  let ?z = "(0 :: real, 0 :: real, 0 :: real, 0 :: real)"
  have ok: "rands_ok ?z" by (simp add: rands_ok_def)
  have oks: "list_all rands_ok (replicate 799 ?z)" using ok by (simp add: list_all_iff)
  from pile_reach[OF ok oks] obtain s where
    r: "Simulate_run (pile_inputs ?z (replicate 799 ?z)) Simulate_init = Some s"
    and p: "column_pile 800 s" by auto
  from p have lg: "length (gridLocal s) = nat (WIDTH * HEIGHT)"
    and lc: "length (collision s) = nat (WIDTH * HEIGHT)"
    and col: "\<forall>r. 0 \<le> r \<and> r < HEIGHT \<longrightarrow>
        (collision s ! nat (3 + WIDTH * r) \<longleftrightarrow> HEIGHT - int 800 \<le> r)"
    by (simp_all add: column_pile_def)
  have "Grid_IsSet (collision s) 3 r = Some True" if "0 \<le> r" "r < HEIGHT" for r
  proof -
    from col that have "collision s ! nat (3 + WIDTH * r)" by (simp add: HEIGHT_def)
    with Grid_IsSet_in_range[OF lc, of 3 r] that show ?thesis by (simp add: WIDTH_def)
  qed
  then have full: "\<not> (\<exists>r. 0 \<le> r \<and> r < HEIGHT \<and> Grid_IsSet (collision s) 3 r \<noteq> Some True)"
    by blast
  have sp: "Simulate_spawn ?z s =
     Some (s\<lparr>world := world s @ [pile_grain ?z], sandCount := int 800 + 1,
             source := (source s)\<lparr>src_v := velocity (pile_grain ?z)\<rparr>,
             gridLocal := (gridLocal s)[639202 := True]\<rparr>)"
    using pile_spawn[OF p, of ?z] by simp
  have w: "map_option world (Simulate_spawn ?z s) = Some (world s @ [pile_grain ?z])"
    by (simp add: sp)
  have ty: "tentative_Y (pile_grain ?z) = 1607 / 2"
    by (simp add: var_defs consts_defs pile_grain_def)
  have pe: "physics_entity (pile_grain ?z) ((gridLocal s)[639202 := True]) (collision s) = None"
    using pile_physics_entity[OF _ lc col _ ok, of "(gridLocal s)[639202 := True]"] lg by simp
  have pe': "(case Simulate_spawn ?z s of
          None \<Rightarrow> None
        | Some s1 \<Rightarrow> physics_entity (pile_grain ?z) (gridLocal s1) (collision s1)) = None"
    by (simp add: sp pe)
  have fw: "floor_walk (collision s) 3 (HEIGHT - 1) = None"
    using pile_walk[OF lc col] by simp
  have t: "Simulate_tick (held ?z) s = None"
    using pile_step_panic[OF p ok] by (simp add: held_tick)
  show ?thesis
    using r full w pile_grain_Falling[of ?z] ty pile_grain_floor[OF ok] pile_grain_column[OF ok]
      pe' fw t
    by blast
qed

end
